theory Spec2Isabelle
  imports Complex_Main
begin

section \<open>Numbers\<close>

text \<open>
  A JavaScript number is modelled as an exact real or NaN. Rounding, overflow to an
  infinity and the sign of zero are left out. The source has two divisions whose divisor
  can be zero: \<open>dx / distance\<close> in \<open>createBird\<close>, where the dividend is zero as well
  and the quotient is NaN, and \<open>bird.x / bird.velocityX\<close> in the Butterfly path of
  \<open>gameLoop\<close>, whose quotient (NaN or an infinity) only reaches the bounds test of the
  same iteration, which is false for every value that is not finite. \<open>jdiv\<close> returns
  NaN for both.
\<close>

datatype jsnum = Fin real | NaN

fun jadd :: "jsnum \<Rightarrow> jsnum \<Rightarrow> jsnum" where
  "jadd (Fin a) (Fin b) = Fin (a + b)"
| "jadd _ _ = NaN"

fun jsub :: "jsnum \<Rightarrow> jsnum \<Rightarrow> jsnum" where
  "jsub (Fin a) (Fin b) = Fin (a - b)"
| "jsub _ _ = NaN"

fun jmul :: "jsnum \<Rightarrow> jsnum \<Rightarrow> jsnum" where
  "jmul (Fin a) (Fin b) = Fin (a * b)"
| "jmul _ _ = NaN"

fun jdiv :: "jsnum \<Rightarrow> jsnum \<Rightarrow> jsnum" where
  "jdiv (Fin a) (Fin b) = (if b = 0 then NaN else Fin (a / b))"
| "jdiv _ _ = NaN"

fun jsin :: "jsnum \<Rightarrow> jsnum" where
  "jsin (Fin a) = Fin (sin a)"
| "jsin NaN = NaN"

text \<open>Comparisons with NaN are false.\<close>

fun jle :: "jsnum \<Rightarrow> jsnum \<Rightarrow> bool" where
  "jle (Fin a) (Fin b) = (a \<le> b)"
| "jle _ _ = False"

fun jlt :: "jsnum \<Rightarrow> jsnum \<Rightarrow> bool" where
  "jlt (Fin a) (Fin b) = (a < b)"
| "jlt _ _ = False"

section \<open>Data model\<close>

datatype rarity = common | uncommon | rare | legendary

text \<open>\<open>interface BirdType\<close>; the field \<open>image\<close> is \<open>image_f\<close> here.\<close>

record BirdType =
  name :: string
  image_f :: string
  points :: int
  rarity_f :: rarity
  spawnRate :: int

datatype direction = left | right

datatype status = flying | hit

text \<open>One component of a cell key: the text of \<open>Math.floor(v / cellSize)\<close>.\<close>

datatype kcomp = KInt int | KNaN

type_synonym cellkey = "kcomp \<times> kcomp"

text \<open>
  \<open>interface BirdPosition\<close>, with the two fields of its \<open>animation\<close> object inlined
  (each instance owns its animation object; no two instances share one). The fields
  \<open>id\<close>, \<open>x\<close> and \<open>y\<close> are \<open>bird_id\<close>, \<open>pos_x\<close> and \<open>pos_y\<close>.
\<close>

record BirdPosition =
  bird_id :: string
  bird :: BirdType
  pos_x :: jsnum
  pos_y :: jsnum
  velocityX :: jsnum
  velocityY :: jsnum
  direction :: direction
  initialY :: jsnum
  status :: status
  currentFrame :: nat
  lastFrameTime :: int
  active :: bool
  cellKey :: "cellkey option"

text \<open>An entry of \<open>hitHistory\<close>, its fields prefixed with \<open>hit_\<close>.\<close>

record HitEntry =
  hit_birdType :: string
  hit_points :: int
  hit_timestamp :: int

record FloatingPoint =
  fp_id :: string
  fp_points :: int
  fp_x :: jsnum
  fp_y :: jsnum
  opacity :: real

text \<open>
  The play container element, when mounted: \<open>clientWidth\<close>, \<open>clientHeight\<close> and the
  size of \<open>getBoundingClientRect()\<close>.
\<close>

record container =
  clientWidth :: real
  clientHeight :: real
  rectWidth :: real
  rectHeight :: real

text \<open>The argument of \<open>saveGameData\<close>.\<close>

record summary =
  sessionType :: string
  hostAddress :: string
  sum_score :: int
  sum_hits :: nat
  sum_hitHistory :: "HitEntry list"
  durationSec :: int

text \<open>The argument \<open>flockOptions\<close> of \<open>createBird\<close>.\<close>

record flockOptions =
  fo_side :: int
  fo_y :: real

text \<open>
  What a callback made by \<open>useCallback\<close> reads of the round is what the render that
  made it saw, not what the round is when the callback runs: \<open>createBird\<close> and
  \<open>createFlock\<close> capture \<open>gameOver\<close>, \<open>gameStarted\<close> and \<open>seconds\<close> this way.
\<close>

record closure =
  cl_gameOver :: bool
  cl_gameStarted :: bool
  cl_seconds :: int

text \<open>
  The component's state and refs. Target instances are objects that the active list, the
  pool and the buckets of the spatial hash all refer to, so they live in a store
  \<open>heap\<close> from addresses to objects, and the three containers hold addresses. A bucket
  (a JavaScript \<open>Set\<close>) is a duplicate-free list in insertion order.
  \<open>containerLayout\<close> is the play container as the page lays it out when it is rendered.
  \<open>flockTimers\<close> holds the timers that \<open>createFlock\<close> has set and that have not
  fired yet, each with the closure of the \<open>createBird\<close> it will call and its options;
  nothing in the source cancels them. \<open>saved\<close> logs the calls of \<open>saveGameData\<close>.
\<close>

type_synonym addr = nat

record game =
  heap :: "addr \<Rightarrow> BirdPosition"
  nextAddr :: addr
  birdsRef :: "addr list"
  birdPoolRef :: "addr list"
  spatialHashRef :: "cellkey \<rightharpoonup> addr list"
  floatingPointsRef :: "FloatingPoint list"
  hitHistory :: "HitEntry list"
  seconds :: int
  gameOver :: bool
  gameStarted :: bool
  countdown :: int
  handModeEnabled :: bool
  cursorPosRef :: "real \<times> real"
  currentHandPosRef :: "(real \<times> real) option"
  containerLayout :: "container option"
  flockTimers :: "(closure \<times> flockOptions) list"
  address :: "string option"
  saved :: "summary list"

text \<open>
  \<open>gameContainerRef.current\<close>: the play container is rendered only while the round is
  not over (the game-over screen has none), and the ref of an element that is not rendered
  is null.
\<close>

definition gameContainerRef :: "game \<Rightarrow> container option" where
  "gameContainerRef s = (if gameOver s then None else containerLayout s)"

text \<open>The closure of a callback made by the current render.\<close>

definition capture :: "game \<Rightarrow> closure" where
  "capture s = \<lparr>cl_gameOver = gameOver s, cl_gameStarted = gameStarted s, cl_seconds = seconds s\<rparr>"

section \<open>Derived totals\<close>

text \<open>\<open>hitHistory.reduce((sum, hit) => sum + hit.points, 0)\<close> and \<open>hitHistory.length\<close>.\<close>

definition score :: "game \<Rightarrow> int" where
  "score s = foldl (\<lambda>sum h. sum + hit_points h) 0 (hitHistory s)"

definition hits :: "game \<Rightarrow> nat" where
  "hits s = length (hitHistory s)"

section \<open>Scaling\<close>

definition getScaledSize :: "container option \<Rightarrow> real \<Rightarrow> real" where
  "getScaledSize c baseSize =
     (case c of
        None \<Rightarrow> baseSize
      | Some ct \<Rightarrow>
          let scaleFactor = min (clientWidth ct / 896) (clientHeight ct / 504)
          in max (baseSize * scaleFactor) (baseSize * 0.5))"

section \<open>Spatial hash\<close>

fun kfloor :: "jsnum \<Rightarrow> kcomp" where
  "kfloor (Fin v) = KInt \<lfloor>v\<rfloor>"
| "kfloor NaN = KNaN"

definition getCellKeyFromXY :: "jsnum \<Rightarrow> jsnum \<Rightarrow> real \<Rightarrow> cellkey" where
  "getCellKeyFromXY x y cellSize =
     (kfloor (jdiv x (Fin cellSize)), kfloor (jdiv y (Fin cellSize)))"

text \<open>\<open>Set.add\<close> and \<open>Set.delete\<close> on a bucket.\<close>

definition bucket_add :: "addr \<Rightarrow> addr list \<Rightarrow> addr list" where
  "bucket_add a bk = (if a \<in> set bk then bk else bk @ [a])"

definition bucket_delete :: "addr \<Rightarrow> addr list \<Rightarrow> addr list" where
  "bucket_delete a bk = removeAll a bk"

text \<open>
  \<open>bucket?.delete(bird); if (bucket && bucket.size === 0) map.delete(key)\<close>, the
  step that \<open>spatialUpdateIfMoved\<close> and \<open>spatialRemove\<close> share.
\<close>

definition hash_delete :: "cellkey \<Rightarrow> addr \<Rightarrow> (cellkey \<rightharpoonup> addr list) \<Rightarrow> (cellkey \<rightharpoonup> addr list)" where
  "hash_delete k a m =
     (case m k of
        None \<Rightarrow> m
      | Some bk \<Rightarrow>
          if bucket_delete a bk = [] then m(k := None) else m(k \<mapsto> bucket_delete a bk))"

text \<open>
  \<open>let bucket = map.get(key); if (!bucket) { bucket = new Set(); map.set(key, bucket) }
  bucket.add(bird)\<close>.
\<close>

definition hash_add :: "cellkey \<Rightarrow> addr \<Rightarrow> (cellkey \<rightharpoonup> addr list) \<Rightarrow> (cellkey \<rightharpoonup> addr list)" where
  "hash_add k a m =
     (case m k of
        None \<Rightarrow> m(k \<mapsto> bucket_add a [])
      | Some bk \<Rightarrow> m(k \<mapsto> bucket_add a bk))"

definition spatialInsert :: "addr \<Rightarrow> real \<Rightarrow> game \<Rightarrow> game" where
  "spatialInsert a cellSize s =
     (let b = heap s a;
          key = getCellKeyFromXY (pos_x b) (pos_y b) cellSize
      in s\<lparr>heap := (heap s)(a := b\<lparr>cellKey := Some key\<rparr>),
           spatialHashRef := hash_add key a (spatialHashRef s)\<rparr>)"

definition spatialUpdateIfMoved :: "addr \<Rightarrow> real \<Rightarrow> game \<Rightarrow> game" where
  "spatialUpdateIfMoved a cellSize s =
     (let b = heap s a;
          nextKey = getCellKeyFromXY (pos_x b) (pos_y b) cellSize
      in if cellKey b = Some nextKey then s
         else
           let m1 = (case cellKey b of
                       None \<Rightarrow> spatialHashRef s
                     | Some k \<Rightarrow> hash_delete k a (spatialHashRef s))
           in s\<lparr>heap := (heap s)(a := b\<lparr>cellKey := Some nextKey\<rparr>),
                spatialHashRef := hash_add nextKey a m1\<rparr>)"

definition spatialRemove :: "addr \<Rightarrow> game \<Rightarrow> game" where
  "spatialRemove a s =
     (let b = heap s a
      in case cellKey b of
           None \<Rightarrow> s
         | Some k \<Rightarrow>
             s\<lparr>heap := (heap s)(a := b\<lparr>cellKey := None\<rparr>),
               spatialHashRef := hash_delete k a (spatialHashRef s)\<rparr>)"

text \<open>
  \<open>queryNearbyBirds\<close>: the two loops over \<open>dy\<close> and \<open>dx\<close> from -1 to 1, the outer one
  over \<open>dy\<close>; a missing bucket is skipped.
\<close>

definition scanCell :: "game \<Rightarrow> cellkey \<Rightarrow> addr list" where
  "scanCell s key =
     (case spatialHashRef s key of
        None \<Rightarrow> []
      | Some bucket \<Rightarrow> filter (\<lambda>b. status (heap s b) = flying) bucket)"

definition queryNearbyBirds :: "game \<Rightarrow> real \<Rightarrow> real \<Rightarrow> real \<Rightarrow> addr list" where
  "queryNearbyBirds s x y radius =
     (let cellSize = max 1 (radius * 2);
          ix = \<lfloor>x / cellSize\<rfloor>;
          iy = \<lfloor>y / cellSize\<rfloor>
      in concat (map (\<lambda>dy. concat (map (\<lambda>dx. scanCell s (KInt (ix + dx), KInt (iy + dy)))
                                        [-1, 0, 1]))
                     [-1, 0, 1]))"

section \<open>Species catalog and selection\<close>

definition birdTypes :: "BirdType list" where
  "birdTypes =
     [\<lparr>name = ''Bee'', image_f = ''/animals/bee.gif'', points = 1, rarity_f = common, spawnRate = 15\<rparr>,
      \<lparr>name = ''Butterfly'', image_f = ''/animals/butterfly.gif'', points = 2, rarity_f = uncommon, spawnRate = 10\<rparr>,
      \<lparr>name = ''Fly'', image_f = ''/animals/fly.gif'', points = 5, rarity_f = rare, spawnRate = 5\<rparr>,
      \<lparr>name = ''Ava'', image_f = ''/animals/ava.gif'', points = 10, rarity_f = legendary, spawnRate = 2\<rparr>]"

text \<open>\<open>getRandomBird\<close>, with the value of its one \<open>Math.random()\<close> call as argument.\<close>

definition getRandomBird :: "real \<Rightarrow> BirdType" where
  "getRandomBird random =
     (if random < 0.6 then birdTypes ! 0
      else if random < 0.85 then birdTypes ! 1
      else if random < 0.95 then birdTypes ! 2
      else birdTypes ! 3)"

section \<open>Spawner\<close>

text \<open>
  What one call of \<open>createBird\<close> reads from outside: the values of its
  \<open>Math.random()\<close> calls in the order of the source (side, spawn coordinate, target
  coordinate, species, speed), the random id string and \<open>Date.now()\<close>.
\<close>

record spawn_draws =
  r_side :: real
  r_pos :: real
  r_target :: real
  r_bird :: real
  r_speed :: real
  r_id :: string
  d_now :: int

text \<open>
  The \<open>switch (side)\<close> of \<open>createBird\<close>: the tuple \<open>(x, y, targetX, targetY)\<close>, which
  stays \<open>(0, 0, 0, 0)\<close> when no case matches.
\<close>

definition spawnPoint ::
  "int \<Rightarrow> real \<Rightarrow> real \<Rightarrow> real \<Rightarrow> flockOptions option \<Rightarrow> spawn_draws \<Rightarrow> real \<times> real \<times> real \<times> real" where
  "spawnPoint side spawnDistance width height fo d =
     (if side = 0 then
        (- spawnDistance,
         max spawnDistance (min (height - spawnDistance)
           (case fo of Some f \<Rightarrow> fo_y f | None \<Rightarrow> r_pos d * height)),
         width + spawnDistance,
         max spawnDistance (min (height - spawnDistance) (r_target d * height)))
      else if side = 1 then
        (width + spawnDistance,
         max spawnDistance (min (height - spawnDistance)
           (case fo of Some f \<Rightarrow> fo_y f | None \<Rightarrow> r_pos d * height)),
         - spawnDistance,
         max spawnDistance (min (height - spawnDistance) (r_target d * height)))
      else if side = 2 then
        (max spawnDistance (min (width - spawnDistance) (r_pos d * width)),
         - spawnDistance,
         max spawnDistance (min (width - spawnDistance) (r_target d * width)),
         height + spawnDistance)
      else if side = 3 then
        (max spawnDistance (min (width - spawnDistance) (r_pos d * width)),
         height + spawnDistance,
         max spawnDistance (min (width - spawnDistance) (r_target d * width)),
         - spawnDistance)
      else (0, 0, 0, 0))"

text \<open>The object literal that \<open>createBird\<close> allocates when the pool is empty.\<close>

definition freshInstance :: "BirdType \<Rightarrow> int \<Rightarrow> BirdPosition" where
  "freshInstance birdType t =
     \<lparr>bird_id = [], bird = birdType, pos_x = Fin 0, pos_y = Fin 0,
      velocityX = Fin 0, velocityY = Fin 0, direction = left, initialY = Fin 0,
      status = flying, currentFrame = 0, lastFrameTime = t, active = False,
      cellKey = None\<rparr>"

text \<open>
  \<open>const pooled = birdPoolRef.current.pop(); const instance = pooled ?? {...}\<close>:
  the address of the instance and the state after the pop or the allocation.
\<close>

definition acquire :: "BirdType \<Rightarrow> int \<Rightarrow> game \<Rightarrow> addr \<times> game" where
  "acquire birdType t s =
     (if birdPoolRef s = [] then
        (nextAddr s,
         s\<lparr>heap := (heap s)(nextAddr s := freshInstance birdType t),
           nextAddr := Suc (nextAddr s)\<rparr>)
      else (last (birdPoolRef s), s\<lparr>birdPoolRef := butlast (birdPoolRef s)\<rparr>))"

text \<open>The thirteen assignments under \<open>// Reset fields\<close>.\<close>

definition resetFields ::
  "string \<Rightarrow> BirdType \<Rightarrow> real \<Rightarrow> real \<Rightarrow> jsnum \<Rightarrow> jsnum \<Rightarrow> int \<Rightarrow> BirdPosition \<Rightarrow> BirdPosition" where
  "resetFields i birdType x y vx vy t instance =
     instance\<lparr>bird_id := i, bird := birdType, pos_x := Fin x, pos_y := Fin y,
       velocityX := vx, velocityY := vy,
       direction := (if jlt (Fin 0) vx then right else left),
       initialY := Fin y, status := flying, currentFrame := 0, lastFrameTime := t,
       active := True, cellKey := None\<rparr>"

text \<open>
  The velocity of a spawned target: \<open>(dx / distance) * speed\<close> and
  \<open>(dy / distance) * speed\<close>, the speed growing with the elapsed round time.
\<close>

definition spawnVelocity :: "real \<Rightarrow> real \<Rightarrow> int \<Rightarrow> real \<Rightarrow> jsnum \<times> jsnum" where
  "spawnVelocity dx dy secs rspeed =
     (let distance = sqrt (dx * dx + dy * dy);
          timeProgress = 1 - real_of_int secs / 60;
          baseSpeed = 1.5 + timeProgress * 1.5;
          speed = baseSpeed + rspeed * 1.0
      in (jmul (jdiv (Fin dx) (Fin distance)) (Fin speed),
          jmul (jdiv (Fin dy) (Fin distance)) (Fin speed)))"

text \<open>
  The first part of \<open>createBird\<close>, from \<open>const container\<close> to the end of the
  \<open>switch\<close>: the tuple \<open>(x, y, targetX, targetY)\<close>.
\<close>

definition spawnGeometry ::
  "container \<Rightarrow> flockOptions option \<Rightarrow> spawn_draws \<Rightarrow> real \<times> real \<times> real \<times> real" where
  "spawnGeometry ct fo d =
     (let width = clientWidth ct;
          height = clientHeight ct;
          spawnDistance = min (getScaledSize (Some ct) 100) (min width height * 0.2);
          side = (case fo of Some f \<Rightarrow> fo_side f | None \<Rightarrow> \<lfloor>r_side d * 4\<rfloor>)
      in spawnPoint side spawnDistance width height fo d)"

text \<open>
  \<open>createBird\<close>, called through the closure \<open>cl\<close>: the guard tests the captured
  \<open>gameOver\<close> and \<open>gameStarted\<close> and the current value of the container ref, and the
  speed grows with the captured \<open>seconds\<close>.
\<close>

definition createBird :: "closure \<Rightarrow> flockOptions option \<Rightarrow> spawn_draws \<Rightarrow> game \<Rightarrow> game" where
  "createBird cl fo d s =
     (if cl_gameOver cl \<or> \<not> cl_gameStarted cl then s
      else case gameContainerRef s of
        None \<Rightarrow> s
      | Some ct \<Rightarrow>
          let p = spawnGeometry ct fo d;
              x = fst p;
              y = fst (snd p);
              targetX = fst (snd (snd p));
              targetY = snd (snd (snd p));
              birdType = getRandomBird (r_bird d);
              v = spawnVelocity (targetX - x) (targetY - y) (cl_seconds cl) (r_speed d);
              q = acquire birdType (d_now d) s;
              a = fst q;
              s1 = snd q;
              s2 = s1\<lparr>heap := (heap s1)(a := resetFields (r_id d) birdType x y (fst v) (snd v)
                                                  (d_now d) (heap s1 a)),
                      birdsRef := birdsRef s1 @ [a]\<rparr>;
              hitRadius = getScaledSize (Some ct) 32
          in spatialInsert a (max 1 (hitRadius * 2)) s2)"

text \<open>
  What one call of \<open>createFlock\<close> reads from outside: the draws for the flock size, the
  start line and the side, and for the \<open>i\<close>-th target the draw for its offset from the
  line. (The draws for the delays are left out: the timers may fire in any order.)
\<close>

record flock_draws =
  f_size :: real
  f_startY :: real
  f_side :: real
  f_offset :: "nat \<Rightarrow> real"

text \<open>
  \<open>createFlock\<close>, called through the closure \<open>cl\<close>. Each \<open>setTimeout\<close> of its loop
  adds a timer that will call, with the options of the \<open>i\<close>-th target, the
  \<open>createBird\<close> that \<open>createFlock\<close> captured, which is the one of the same render.
\<close>

definition createFlock :: "closure \<Rightarrow> flock_draws \<Rightarrow> game \<Rightarrow> game" where
  "createFlock cl fd s =
     (if cl_gameOver cl \<or> \<not> cl_gameStarted cl then s
      else case gameContainerRef s of
        None \<Rightarrow> s
      | Some ct \<Rightarrow>
          let height = clientHeight ct;
              flockSize = 3 + \<lfloor>f_size fd * 3\<rfloor>;
              flockStartY = f_startY fd * (height - 150) + 75;
              side = \<lfloor>f_side fd * 2\<rfloor>
          in s\<lparr>flockTimers := flockTimers s @
                 map (\<lambda>i. (cl, \<lparr>fo_side = side,
                                  fo_y = flockStartY + (f_offset fd i - 0.5) * 150\<rparr>))
                     [0 ..< nat flockSize]\<rparr>)"

text \<open>
  The \<open>n\<close>-th pending timer of a flock fires: it leaves the list and calls its
  \<open>createBird\<close>.
\<close>

definition fireFlockTimer :: "nat \<Rightarrow> spawn_draws \<Rightarrow> game \<Rightarrow> game" where
  "fireFlockTimer n d s =
     (if n < length (flockTimers s) then
        createBird (fst (flockTimers s ! n)) (Some (snd (flockTimers s ! n))) d
          (s\<lparr>flockTimers := take n (flockTimers s) @ drop (Suc n) (flockTimers s)\<rparr>)
      else s)"

section \<open>Collision and hit resolver\<close>

text \<open>What one call of \<open>catchBird\<close> reads from outside.\<close>

record catch_draws =
  c_now :: int
  c_id :: string

text \<open>
  \<open>catchBird\<close> up to its first \<open>await\<close>; what follows only reports to the external
  hit service and shows a toast.
\<close>

definition catchBird :: "string \<Rightarrow> catch_draws \<Rightarrow> game \<Rightarrow> game" where
  "catchBird birdId d s =
     (case find (\<lambda>b. bird_id (heap s b) = birdId) (birdsRef s) of
        None \<Rightarrow> s
      | Some a \<Rightarrow>
          let b = heap s a
          in if status b = flying then
               s\<lparr>hitHistory := hitHistory s @
                    [\<lparr>hit_birdType = name (bird b), hit_points = points (bird b), hit_timestamp = c_now d\<rparr>],
                 floatingPointsRef := floatingPointsRef s @
                    [\<lparr>fp_id = c_id d, fp_points = points (bird b), fp_x = pos_x b, fp_y = pos_y b,
                      opacity = 1\<rparr>],
                 heap := (heap s)(a := b\<lparr>status := hit, velocityX := Fin 0, velocityY := Fin 2\<rparr>)\<rparr>
             else s)"

text \<open>
  The loop over the candidates that \<open>handleGameAreaClick\<close> and \<open>onPinch\<close> both run;
  the \<open>n\<close>-th call of \<open>catchBird\<close> reads \<open>ds n\<close>.
\<close>

fun hitCandidates ::
  "real \<Rightarrow> real \<Rightarrow> real \<Rightarrow> (nat \<Rightarrow> catch_draws) \<Rightarrow> nat \<Rightarrow> addr list \<Rightarrow> game \<Rightarrow> game" where
  "hitCandidates cx cy r2 ds n [] s = s"
| "hitCandidates cx cy r2 ds n (a # candidates) s =
     (let b = heap s a;
          dx = jsub (Fin cx) (pos_x b);
          dy = jsub (Fin cy) (pos_y b)
      in if jlt (jadd (jmul dx dx) (jmul dy dy)) (Fin r2)
         then hitCandidates cx cy r2 ds (Suc n) candidates (catchBird (bird_id b) (ds n) s)
         else hitCandidates cx cy r2 ds (Suc n) candidates s)"

text \<open>
  The hit test of a trigger at \<open>(cx, cy)\<close>: the click position of
  \<open>handleGameAreaClick\<close> or the cursor position of \<open>onPinch\<close>.
\<close>

definition hitTest :: "real \<Rightarrow> real \<Rightarrow> (nat \<Rightarrow> catch_draws) \<Rightarrow> game \<Rightarrow> game" where
  "hitTest cx cy ds s =
     (let hitRadius = getScaledSize (gameContainerRef s) 32;
          r2 = hitRadius * hitRadius;
          candidates = queryNearbyBirds s cx cy hitRadius
      in hitCandidates cx cy r2 ds 0 candidates s)"

definition handleGameAreaClick :: "real \<Rightarrow> real \<Rightarrow> (nat \<Rightarrow> catch_draws) \<Rightarrow> game \<Rightarrow> game" where
  "handleGameAreaClick clickX clickY ds s =
     (case gameContainerRef s of None \<Rightarrow> s | Some ct \<Rightarrow> hitTest clickX clickY ds s)"

definition onPinch :: "(nat \<Rightarrow> catch_draws) \<Rightarrow> game \<Rightarrow> game" where
  "onPinch ds s =
     (if \<not> gameStarted s \<or> gameOver s then s
      else hitTest (fst (cursorPosRef s)) (snd (cursorPosRef s)) ds s)"

section \<open>Hand input\<close>

text \<open>
  \<open>updateHandPosition\<close>, and the \<open>onHandData\<close> handler that calls it with the clamped
  palm centre; \<open>palmCenter\<close> is \<open>None\<close> when the event carries none.
\<close>

definition updateHandPosition :: "real \<times> real \<Rightarrow> game \<Rightarrow> game" where
  "updateHandPosition palmPos s =
     (if \<not> handModeEnabled s then s
      else case gameContainerRef s of
        None \<Rightarrow> s
      | Some ct \<Rightarrow>
          let targetX = fst palmPos * rectWidth ct;
              targetY = snd palmPos * rectHeight ct
          in s\<lparr>cursorPosRef := (targetX, targetY),
               currentHandPosRef := Some (targetX, targetY)\<rparr>)"

definition onHandData :: "(real \<times> real) option \<Rightarrow> game \<Rightarrow> game" where
  "onHandData palmCenter s =
     (if \<not> handModeEnabled s then s
      else case palmCenter of
        None \<Rightarrow> s
      | Some source \<Rightarrow>
          let nx = max 0 (min 1 (fst source));
              ny = max 0 (min 1 (snd source))
          in updateHandPosition (nx, ny) s)"

section \<open>Motion engine\<close>

text \<open>
  Retirement, as both branches of the loop write it: \<open>spatialRemove(bird)\<close>,
  \<open>bird.active = false\<close>, the push to the pool, and the swap-removal of index \<open>i\<close> from
  the active list (\<open>pop\<close>, then the popped element stored at \<open>i\<close> when \<open>i\<close> is still
  in range).
\<close>

definition retire :: "nat \<Rightarrow> addr \<Rightarrow> game \<Rightarrow> game" where
  "retire i a s =
     (let s1 = spatialRemove a s;
          s2 = s1\<lparr>heap := (heap s1)(a := (heap s1 a)\<lparr>active := False\<rparr>),
                  birdPoolRef := birdPoolRef s1 @ [a]\<rparr>;
          lst = last (birdsRef s2);
          popped = butlast (birdsRef s2)
      in s2\<lparr>birdsRef := (if i < length popped then popped[i := lst] else popped)\<rparr>)"

text \<open>
  The \<open>hit\<close> branch up to and including \<open>spatialUpdateIfMoved\<close>: gravity \<open>0.1\<close> is added
  to the vertical velocity, then the new vertical velocity to \<open>y\<close>.
\<close>

definition fallStep :: "addr \<Rightarrow> real \<Rightarrow> game \<Rightarrow> game" where
  "fallStep a cellSize s =
     (let b0 = heap s a;
          b1 = b0\<lparr>velocityY := jadd (velocityY b0) (Fin 0.1)\<rparr>;
          b2 = b1\<lparr>pos_y := jadd (pos_y b1) (velocityY b1)\<rparr>
      in spatialUpdateIfMoved a cellSize (s\<lparr>heap := (heap s)(a := b2)\<rparr>))"

text \<open>
  The \<open>flying\<close> branch: \<open>(newX, newY)\<close>, where \<open>rnd\<close> is the value of the
  \<open>Math.random()\<close> call of the Bee path.
\<close>

definition flightTarget :: "BirdPosition \<Rightarrow> real \<Rightarrow> jsnum \<times> jsnum" where
  "flightTarget b rnd =
     (let newX = jadd (pos_x b) (velocityX b);
          newY = jadd (pos_y b) (velocityY b)
      in if name (bird b) = ''Butterfly'' then
           (newX,
            jadd (jadd (initialY b) (jmul (velocityY b) (jdiv (pos_x b) (velocityX b))))
                 (jmul (jmul (jsin (jmul (pos_x b) (Fin 0.03))) (Fin 1.2)) (Fin 20)))
         else if name (bird b) = ''Bee'' then
           (jadd newX (Fin ((rnd - 0.5) * 3)), newY)
         else (newX, newY))"

definition inBounds :: "jsnum \<Rightarrow> jsnum \<Rightarrow> real \<Rightarrow> real \<Rightarrow> bool" where
  "inBounds newX newY width height =
     (jle (Fin (- 150)) newX \<and> jle newX (Fin (width + 150)) \<and>
      jle (Fin (- 150)) newY \<and> jle newY (Fin (height + 150)))"

definition moveTo :: "addr \<Rightarrow> jsnum \<Rightarrow> jsnum \<Rightarrow> real \<Rightarrow> game \<Rightarrow> game" where
  "moveTo a newX newY cellSize s =
     spatialUpdateIfMoved a cellSize
       (s\<lparr>heap := (heap s)(a := (heap s a)\<lparr>pos_x := newX, pos_y := newY\<rparr>)\<rparr>)"

text \<open>
  The body of one iteration of the loop over the active list, for the target at index
  \<open>i\<close>: the new state, and whether the index advances (the target stays) or the target
  was retired.
\<close>

definition stepBird :: "real \<Rightarrow> real \<Rightarrow> real \<Rightarrow> (addr \<Rightarrow> real) \<Rightarrow> nat \<Rightarrow> game \<Rightarrow> bool \<times> game" where
  "stepBird width height cellSize rnd i s =
     (let a = birdsRef s ! i
      in if status (heap s a) = hit then
           (let s1 = fallStep a cellSize s
            in if jle (pos_y (heap s1 a)) (Fin (height + 100)) then (True, s1)
               else (False, retire i a s1))
         else
           (let t = flightTarget (heap s a) (rnd a)
            in if inBounds (fst t) (snd t) width height
               then (True, moveTo a (fst t) (snd t) cellSize s)
               else (False, retire i a s)))"

lemma birdsRef_spatialUpdateIfMoved [simp]:
  "birdsRef (spatialUpdateIfMoved a c s) = birdsRef s"
  by (simp add: spatialUpdateIfMoved_def Let_def)

lemma birdsRef_spatialRemove [simp]: "birdsRef (spatialRemove a s) = birdsRef s"
  by (simp add: spatialRemove_def Let_def split: option.splits)

lemma birdsRef_fallStep [simp]: "birdsRef (fallStep a c s) = birdsRef s"
  by (simp add: fallStep_def Let_def)

lemma birdsRef_moveTo [simp]: "birdsRef (moveTo a x y c s) = birdsRef s"
  by (simp add: moveTo_def)

lemma birdsRef_retire:
  "birdsRef (retire i a s) =
     (if i < length (butlast (birdsRef s)) then (butlast (birdsRef s))[i := last (birdsRef s)]
      else butlast (birdsRef s))"
  by (simp add: retire_def Let_def)

lemma length_birdsRef_retire [simp]:
  "length (birdsRef (retire i a s)) = length (birdsRef s) - 1"
  by (simp add: birdsRef_retire)

lemma stepBird_length:
  "length (birdsRef (snd (stepBird w h c rnd i s))) =
     (if fst (stepBird w h c rnd i s) then length (birdsRef s) else length (birdsRef s) - 1)"
  by (simp add: stepBird_def Let_def)

text \<open>
  \<open>for (let i = 0; i < birdsRef.current.length; ) { ... }\<close>: the index advances when
  the target stays, and stays when the target was swap-removed. \<open>rnd a\<close> is the random
  draw of the iteration that visits the instance \<open>a\<close>.
\<close>

function simLoop :: "real \<Rightarrow> real \<Rightarrow> real \<Rightarrow> (addr \<Rightarrow> real) \<Rightarrow> nat \<Rightarrow> game \<Rightarrow> game" where
  "simLoop width height cellSize rnd i s =
     (if i < length (birdsRef s) then
        (let r = stepBird width height cellSize rnd i s
         in if fst r then simLoop width height cellSize rnd (i + 1) (snd r)
            else simLoop width height cellSize rnd i (snd r))
      else s)"
  by pat_completeness auto

termination
  by (relation "measure (\<lambda>(width, height, cellSize, rnd, i, s). length (birdsRef s) - i)")
     (auto simp: stepBird_length)

declare simLoop.simps [simp del]

text \<open>
  The simulation step of \<open>gameLoop\<close> (the block under \<open>// --- Simulation step\<close>),
  with the canvas and its context present; drawing, which also advances the animation
  frame of each target, the cursor animation and the floating score labels are left out.
\<close>

definition simulationStep :: "(addr \<Rightarrow> real) \<Rightarrow> game \<Rightarrow> game" where
  "simulationStep rnd s =
     (if gameStarted s \<and> \<not> gameOver s then
        (case gameContainerRef s of
           None \<Rightarrow> s
         | Some ct \<Rightarrow>
             let width = clientWidth ct;
                 height = clientHeight ct;
                 hitRadius = getScaledSize (Some ct) 32;
                 cellSize = max 1 (hitRadius * 2)
             in simLoop width height cellSize rnd 0 s)
      else s)"

section \<open>Round controller\<close>

text \<open>The callback of the countdown interval.\<close>

definition countdownTick :: "game \<Rightarrow> game" where
  "countdownTick s =
     (if countdown s \<le> 1 then s\<lparr>gameStarted := True, countdown := 0\<rparr>
      else s\<lparr>countdown := countdown s - 1\<rparr>)"

text \<open>
  The callback of the seconds interval, which exists only while \<open>gameStarted\<close> and not
  \<open>gameOver\<close> (the effect returns before \<open>setInterval\<close> otherwise, and its cleanup
  clears the interval).
\<close>

definition secondsTick :: "game \<Rightarrow> game" where
  "secondsTick s =
     (if \<not> gameStarted s \<or> gameOver s then s
      else if seconds s \<le> 1 then s\<lparr>gameOver := True, seconds := 0\<rparr>
      else s\<lparr>seconds := seconds s - 1\<rparr>)"

definition resetGame :: "game \<Rightarrow> game" where
  "resetGame s =
     s\<lparr>seconds := 60, gameOver := False, gameStarted := False, countdown := 3,
       hitHistory := []\<rparr>"

definition playAgain :: "game \<Rightarrow> game" where
  "playAgain s =
     resetGame (s\<lparr>birdsRef := [], birdPoolRef := [], spatialHashRef := Map.empty,
                  floatingPointsRef := [], cursorPosRef := (0, 0)\<rparr>)"

text \<open>
  The effect that hands the round summary to \<open>saveGameData\<close>: its body, and its
  dependency list. React runs the body after a render in which a dependency changed.
  An \<open>address\<close> that is undefined or the empty string is falsy.
\<close>

definition saveGameDataEffect :: "game \<Rightarrow> game" where
  "saveGameDataEffect s =
     (case address s of
        None \<Rightarrow> s
      | Some adr \<Rightarrow>
          if gameOver s \<and> length (hitHistory s) > 0 \<and> adr \<noteq> [] then
            s\<lparr>saved := saved s @
                 [\<lparr>sessionType = ''single'', hostAddress = adr, sum_score = score s,
                   sum_hits = hits s, sum_hitHistory = hitHistory s,
                   durationSec = 60 - seconds s\<rparr>]\<rparr>
          else s)"

definition saveDeps :: "game \<Rightarrow> bool \<times> HitEntry list \<times> string option \<times> int \<times> nat \<times> int" where
  "saveDeps s = (gameOver s, hitHistory s, address s, score s, hits s, seconds s)"

definition handleMouseMove :: "real \<Rightarrow> real \<Rightarrow> game \<Rightarrow> game" where
  "handleMouseMove x y s =
     (if handModeEnabled s then s
      else case gameContainerRef s of
        None \<Rightarrow> s
      | Some ct \<Rightarrow> s\<lparr>cursorPosRef := (x, y)\<rparr>)"

section \<open>Events\<close>

text \<open>
  What can happen to the component, each event with the values it reads from outside.
  \<open>Spawn\<close> and \<open>Flock\<close> are the calls of the spawn loop, through the callbacks of
  the current render (the loop is set up again whenever one of them changes, and it calls
  \<open>createBird\<close> without options); \<open>FlockTimer\<close> is a pending timer of a flock
  firing, with the closure it was set with. The play container and the hand-tracking view
  are rendered only while the round is not over, so clicks, mouse moves and hand events
  reach their handlers only then; the replay button is rendered only when the round is
  over. \<open>AddressChange\<close> is \<open>useAccount()\<close> returning another address, which can
  happen at any time. The layout of the container does not change while the component is
  mounted.
\<close>

datatype event =
    Spawn "flockOptions option" spawn_draws
  | Frame "addr \<Rightarrow> real"
  | Click real real "nat \<Rightarrow> catch_draws"
  | Pinch "nat \<Rightarrow> catch_draws"
  | HandData "(real \<times> real) option"
  | MouseMove real real
  | ToggleHandMode
  | CountdownTick
  | SecondsTick
  | PlayAgain
  | Flock flock_draws
  | FlockTimer nat spawn_draws
  | AddressChange "string option"

fun handle :: "event \<Rightarrow> game \<Rightarrow> game" where
  "handle (Spawn fo d) s = createBird (capture s) fo d s"
| "handle (Frame rnd) s = simulationStep rnd s"
| "handle (Click x y ds) s = (if gameOver s then s else handleGameAreaClick x y ds s)"
| "handle (Pinch ds) s = (if gameOver s then s else onPinch ds s)"
| "handle (HandData p) s = (if gameOver s then s else onHandData p s)"
| "handle (MouseMove x y) s = (if gameOver s then s else handleMouseMove x y s)"
| "handle ToggleHandMode s =
     (if gameOver s then s else s\<lparr>handModeEnabled := \<not> handModeEnabled s\<rparr>)"
| "handle CountdownTick s = countdownTick s"
| "handle SecondsTick s = secondsTick s"
| "handle PlayAgain s = (if gameOver s then playAgain s else s)"
| "handle (Flock fd) s = createFlock (capture s) fd s"
| "handle (FlockTimer n d) s = fireFlockTimer n d s"
| "handle (AddressChange a) s = s\<lparr>address := a\<rparr>"

text \<open>One event, followed by the save effect when one of its dependencies changed.\<close>

definition step :: "event \<Rightarrow> game \<Rightarrow> game" where
  "step e s =
     (let s1 = handle e s
      in if saveDeps s1 \<noteq> saveDeps s then saveGameDataEffect s1 else s1)"

fun run :: "event list \<Rightarrow> game \<Rightarrow> game" where
  "run [] s = s"
| "run (e # es) s = run es (step e s)"

text \<open>
  The component after mounting: the initial values of its \<open>useState\<close> and \<open>useRef\<close>
  calls, with the layout \<open>c\<close> of the play container and the wallet address \<open>adr\<close>.
\<close>

definition initialGame :: "container option \<Rightarrow> string option \<Rightarrow> game" where
  "initialGame c adr =
     \<lparr>heap = (\<lambda>a. freshInstance (birdTypes ! 0) 0), nextAddr = 0, birdsRef = [],
      birdPoolRef = [], spatialHashRef = Map.empty, floatingPointsRef = [],
      hitHistory = [], seconds = 60, gameOver = False, gameStarted = False, countdown = 3,
      handModeEnabled = False, cursorPosRef = (0, 0), currentHandPosRef = None,
      containerLayout = c, flockTimers = [], address = adr, saved = []\<rparr>"

section \<open>Specification predicates\<close>

text \<open>
  Membership of a target in the bucket of a cell, on the state and on the map, and
  buckets that are non-empty duplicate-free sets.
\<close>

definition inBucket :: "game \<Rightarrow> cellkey \<Rightarrow> addr \<Rightarrow> bool" where
  "inBucket s k a = (case spatialHashRef s k of None \<Rightarrow> False | Some bk \<Rightarrow> a \<in> set bk)"

definition hashMember :: "(cellkey \<rightharpoonup> addr list) \<Rightarrow> cellkey \<Rightarrow> addr \<Rightarrow> bool" where
  "hashMember m k a = (case m k of None \<Rightarrow> False | Some bk \<Rightarrow> a \<in> set bk)"

definition buckets_wf :: "(cellkey \<rightharpoonup> addr list) \<Rightarrow> bool" where
  "buckets_wf m = (\<forall>k bk. m k = Some bk \<longrightarrow> bk \<noteq> [] \<and> distinct bk)"

text \<open>The active list after the swap-removal of index \<open>i\<close>, as \<open>retire\<close> computes it.\<close>

definition swap_remove :: "nat \<Rightarrow> 'a list \<Rightarrow> 'a list" where
  "swap_remove i bs =
     (if i < length (butlast bs) then (butlast bs)[i := last bs] else butlast bs)"

text \<open>
  The active list and the pool hold each instance at most once and share none, every
  instance in them has been allocated, the buckets are non-empty duplicate-free sets, and
  a bucket holds a target exactly when the target is active and its bucket key is the key
  of that bucket.
\<close>

definition index_consistent :: "game \<Rightarrow> bool" where
  "index_consistent s \<longleftrightarrow>
     distinct (birdsRef s) \<and> distinct (birdPoolRef s) \<and>
     set (birdsRef s) \<inter> set (birdPoolRef s) = {} \<and>
     (\<forall>a \<in> set (birdsRef s) \<union> set (birdPoolRef s). a < nextAddr s) \<and>
     buckets_wf (spatialHashRef s) \<and>
     (\<forall>k a. inBucket s k a \<longleftrightarrow> a \<in> set (birdsRef s) \<and> cellKey (heap s a) = Some k)"

text \<open>Every active target carries the key of the cell of its position, for cell size \<open>cs\<close>.\<close>

definition keyed :: "real \<Rightarrow> game \<Rightarrow> bool" where
  "keyed cs s \<longleftrightarrow>
     (\<forall>a \<in> set (birdsRef s).
        cellKey (heap s a) = Some (getCellKeyFromXY (pos_x (heap s a)) (pos_y (heap s a)) cs))"

text \<open>
  The cell size that the spawner and the motion engine compute from the container, and
  the invariant of the spatial index for a component whose container has the layout
  \<open>c\<close>.
\<close>

definition cellSizeOf :: "container option \<Rightarrow> real" where
  "cellSizeOf c = max 1 (getScaledSize c 32 * 2)"

definition index_inv :: "container option \<Rightarrow> game \<Rightarrow> bool" where
  "index_inv c s \<longleftrightarrow>
     containerLayout s = c \<and> index_consistent s \<and> keyed (cellSizeOf c) s"

text \<open>
  The fields of the round that the motion engine, the spawner and the hit resolver leave
  alone.
\<close>

definition roundView ::
  "game \<Rightarrow> bool \<times> bool \<times> int \<times> int \<times> string option \<times> summary list \<times> container option \<times> bool" where
  "roundView s =
     (gameOver s, gameStarted s, seconds s, countdown s, address s, saved s,
      containerLayout s, handModeEnabled s)"

text \<open>A target without its pool and index bookkeeping (\<open>active\<close>, \<open>cellKey\<close>).\<close>

definition domainFields :: "BirdPosition \<Rightarrow> BirdPosition" where
  "domainFields b = b\<lparr>active := False, cellKey := None\<rparr>"

text \<open>The fall of one frame: gravity on the vertical velocity, then the move in \<open>y\<close>.\<close>

definition fallen :: "BirdPosition \<Rightarrow> BirdPosition" where
  "fallen b =
     b\<lparr>velocityY := jadd (velocityY b) (Fin 0.1),
       pos_y := jadd (pos_y b) (jadd (velocityY b) (Fin 0.1))\<rparr>"

text \<open>
  The calls of \<open>saveGameData\<close> that a round in state \<open>s\<close> should have made: one, with
  the summary of the round, when the round is over with at least one hit and a player
  address; none otherwise.
\<close>

definition expectedSaves :: "game \<Rightarrow> summary list" where
  "expectedSaves s =
     (case address s of
        None \<Rightarrow> []
      | Some adr \<Rightarrow>
          if gameOver s \<and> hitHistory s \<noteq> [] \<and> adr \<noteq> [] then
            [\<lparr>sessionType = ''single'', hostAddress = adr, sum_score = score s,
              sum_hits = hits s, sum_hitHistory = hitHistory s, durationSec = 60\<rparr>]
          else [])"

text \<open>Within a round, the round is not over or its seconds are at zero.\<close>

definition over_at_zero :: "game \<Rightarrow> bool" where
  "over_at_zero s \<longleftrightarrow> \<not> gameOver s \<or> seconds s = 0"

text \<open>
  The ticks of the seconds interval among the events \<open>es\<close>.
\<close>

fun ticks :: "event list \<Rightarrow> nat" where
  "ticks [] = 0"
| "ticks (SecondsTick # es) = Suc (ticks es)"
| "ticks (e # es) = ticks es"

text \<open>
  \<open>noLateChange es s\<close>: in the run of \<open>es\<close> from \<open>s\<close>, \<open>useAccount()\<close> returns no
  other address while the round is over.
\<close>

fun isAddressChange :: "event \<Rightarrow> bool" where
  "isAddressChange (AddressChange a) = True"
| "isAddressChange e = False"

fun noLateChange :: "event list \<Rightarrow> game \<Rightarrow> bool" where
  "noLateChange [] s = True"
| "noLateChange (e # es) s =
     (\<not> (gameOver s \<and> isAddressChange e) \<and> noLateChange es (step e s))"

section \<open>Example inputs\<close>

text \<open>
  A play container at its full size of 896 by 504 pixels inside a border of 4 pixels, and
  a mounted container that has no size yet.
\<close>

definition fullContainer :: container where
  "fullContainer = \<lparr>clientWidth = 896, clientHeight = 504, rectWidth = 904, rectHeight = 512\<rparr>"

definition zeroContainer :: container where
  "zeroContainer = \<lparr>clientWidth = 0, clientHeight = 0, rectWidth = 0, rectHeight = 0\<rparr>"

text \<open>
  Draws for a Butterfly that enters from the left edge and for a Fly that enters from the
  right edge, and the draws of two calls of \<open>catchBird\<close>.
\<close>

definition draws1 :: spawn_draws where
  "draws1 = \<lparr>r_side = 0, r_pos = 0.5, r_target = 0.5, r_bird = 0.7, r_speed = 0,
             r_id = ''n1'', d_now = 1000\<rparr>"

definition draws2 :: spawn_draws where
  "draws2 = \<lparr>r_side = 0.3, r_pos = 0.5, r_target = 0.5, r_bird = 0.9, r_speed = 0,
             r_id = ''n2'', d_now = 1500\<rparr>"

definition catch1 :: catch_draws where
  "catch1 = \<lparr>c_now = 2000, c_id = ''f1''\<rparr>"

definition catch2 :: catch_draws where
  "catch2 = \<lparr>c_now = 2040, c_id = ''f2''\<rparr>"

text \<open>
  The component once the three ticks of the start countdown have passed, and the closure
  of a callback made by a render of the running round at 60 seconds.
\<close>

definition runningClosure :: closure where
  "runningClosure = \<lparr>cl_gameOver = False, cl_gameStarted = True, cl_seconds = 60\<rparr>"

definition startedGame :: "container option \<Rightarrow> string option \<Rightarrow> game" where
  "startedGame c adr = run [CountdownTick, CountdownTick, CountdownTick] (initialGame c adr)"

text \<open>
  The started round in the full container after one spawn: with \<open>draws1\<close> a Butterfly
  at address 0, entering at \<open>(-100, 252)\<close>; with \<open>draws2\<close> a Fly at address 0,
  entering at \<open>(996, 252)\<close>. \<open>hitGame\<close> is the first of the two rounds with its
  Butterfly hit.
\<close>

definition oneBirdGame :: game where
  "oneBirdGame = createBird runningClosure None draws1 (startedGame (Some fullContainer) None)"

definition flyGame :: game where
  "flyGame = createBird runningClosure None draws2 (startedGame (Some fullContainer) None)"

definition hitGame :: game where
  "hitGame = catchBird ''n1'' catch1 oneBirdGame"

text \<open>
  A retired instance that still holds the fields of its previous use (a hit Ava, frame
  31, falling at \<open>y = 700\<close>), and a started round whose pool holds it at address 5.
\<close>

definition usedInstance :: BirdPosition where
  "usedInstance =
     \<lparr>bird_id = ''old'', bird = birdTypes ! 3, pos_x = Fin 40, pos_y = Fin 700,
      velocityX = Fin 0, velocityY = Fin 9, direction = left, initialY = Fin 77,
      status = hit, currentFrame = 31, lastFrameTime = 12, active = False, cellKey = None\<rparr>"

definition pooledGame :: game where
  "pooledGame =
     (startedGame (Some fullContainer) None)
       \<lparr>heap := (\<lambda>a. usedInstance), nextAddr := 6, birdPoolRef := [5]\<rparr>"

text \<open>
  A round with one hit: countdown, a Butterfly spawned, a click next to it, and the 60
  ticks of the seconds interval.
\<close>

definition hitRound :: "event list" where
  "hitRound =
     [CountdownTick, CountdownTick, CountdownTick, Spawn None draws1,
      Click (- 90) 270 (\<lambda>n. catch1)] @ replicate 60 SecondsTick"

text \<open>
  The round of the player \<open>0xA1\<close> in the full container after the countdown, the spawn
  of a Butterfly and a click next to it.
\<close>

definition playerGame :: game where
  "playerGame =
     step (Click (- 90) 270 (\<lambda>n. catch1))
       (createBird runningClosure None draws1
          (startedGame (Some fullContainer) (Some ''0xA1'')))"

text \<open>
  A second round after the round with one hit: the replay button, the countdown, and 60
  ticks of the seconds interval with no hit.
\<close>

definition secondRound :: "event list" where
  "secondRound = [CountdownTick, CountdownTick, CountdownTick] @ replicate 60 SecondsTick"

text \<open>
  The draws of a flock of three targets from the left edge at \<open>y = 252\<close>, and a round
  in which the spawn loop sets up this flock in the last second: the round ends before a
  timer of the flock has fired, and the player starts another round at once. The closure
  of the flock's \<open>createBird\<close> is the one of the running round at one second.
\<close>

definition flockDraws1 :: flock_draws where
  "flockDraws1 = \<lparr>f_size = 0, f_startY = 0.5, f_side = 0, f_offset = (\<lambda>i. 0.5)\<rparr>"

definition staleRound :: "event list" where
  "staleRound =
     [CountdownTick, CountdownTick, CountdownTick] @ replicate 59 SecondsTick @
     [Flock flockDraws1, SecondsTick, PlayAgain]"

definition lastSecondClosure :: closure where
  "lastSecondClosure = \<lparr>cl_gameOver = False, cl_gameStarted = True, cl_seconds = 1\<rparr>"

definition flockTarget :: flockOptions where
  "flockTarget = \<lparr>fo_side = 0, fo_y = 252\<rparr>"

section \<open>Species selection\<close>

lemma name_getRandomBird:
  "name (getRandomBird r) =
     (if r < 0.6 then ''Bee'' else if r < 0.85 then ''Butterfly''
      else if r < 0.95 then ''Fly'' else ''Ava'')"
  by (simp add: getRandomBird_def birdTypes_def numeral_2_eq_2 numeral_3_eq_3)

text \<open>
  Claim C7. \<open>getRandomBird\<close> maps its one draw from \<open>[0, 1)\<close> to the catalog by fixed
  cumulative thresholds: the draws that select the first entry (Bee) are exactly those
  below 0.6, the second (Butterfly) those from 0.6 and below 0.85, the third (Fly) those
  from 0.85 and below 0.95, the fourth (Ava) those from 0.95 on; the intervals have the
  lengths 0.6, 0.25, 0.1 and 0.05. The function has no argument besides the draw.
\<close>

theorem getRandomBird_cumulative:
  "{r. 0 \<le> r \<and> r < 1 \<and> getRandomBird r = birdTypes ! 0} = {0 ..< 0.6} \<and>
   {r. 0 \<le> r \<and> r < 1 \<and> getRandomBird r = birdTypes ! 1} = {0.6 ..< 0.85} \<and>
   {r. 0 \<le> r \<and> r < 1 \<and> getRandomBird r = birdTypes ! 2} = {0.85 ..< 0.95} \<and>
   {r. 0 \<le> r \<and> r < 1 \<and> getRandomBird r = birdTypes ! 3} = {0.95 ..< 1} \<and>
   map name birdTypes = [''Bee'', ''Butterfly'', ''Fly'', ''Ava'']"
  by (auto simp: getRandomBird_def birdTypes_def numeral_2_eq_2 numeral_3_eq_3)

section \<open>The example rounds, evaluated\<close>

lemma startedGame_eq:
  "startedGame c adr = (initialGame c adr)\<lparr>gameStarted := True, countdown := 0\<rparr>"
  by (simp add: startedGame_def step_def countdownTick_def initialGame_def saveDeps_def
        score_def hits_def)

lemma capture_startedGame: "capture (startedGame c adr) = runningClosure"
  by (simp add: capture_def runningClosure_def startedGame_eq initialGame_def)

lemma oneBirdGame_eq:
  "oneBirdGame =
     (startedGame (Some fullContainer) None)
       \<lparr>heap := (\<lambda>a. freshInstance (birdTypes ! 0) 0)
          (0 := \<lparr>bird_id = ''n1'', bird = birdTypes ! 1, pos_x = Fin (- 100), pos_y = Fin 252,
                 velocityX = Fin 1.5, velocityY = Fin 0, direction = right, initialY = Fin 252,
                 status = flying, currentFrame = 0, lastFrameTime = 1000, active = True,
                 cellKey = Some (KInt (- 2), KInt 3)\<rparr>),
        nextAddr := 1, birdsRef := [0], spatialHashRef := [(KInt (- 2), KInt 3) \<mapsto> [0]]\<rparr>"
  by (simp add: oneBirdGame_def startedGame_eq initialGame_def fullContainer_def draws1_def
        runningClosure_def gameContainerRef_def
        createBird_def spawnGeometry_def spawnPoint_def getScaledSize_def spawnVelocity_def
        acquire_def resetFields_def spatialInsert_def Let_def getCellKeyFromXY_def hash_add_def
        bucket_add_def freshInstance_def getRandomBird_def birdTypes_def)

section \<open>Spawning\<close>

lemma getScaledSize_ge_half: "0 \<le> b \<Longrightarrow> b * 0.5 \<le> getScaledSize c b"
  by (cases c) (simp_all add: getScaledSize_def Let_def max_def)

lemma cellSize_ge_32: "32 \<le> max 1 (getScaledSize c 32 * 2)"
  using getScaledSize_ge_half [of 32 c] by simp

lemma resetFields_literal:
  "resetFields i birdType x y vx vy t inst =
     \<lparr>bird_id = i, bird = birdType, pos_x = Fin x, pos_y = Fin y, velocityX = vx,
      velocityY = vy, direction = (if jlt (Fin 0) vx then right else left),
      initialY = Fin y, status = flying, currentFrame = 0, lastFrameTime = t,
      active = True, cellKey = None\<rparr>"
  by (cases inst) (simp add: resetFields_def)

lemma createBird_noop:
  "cl_gameOver cl \<or> \<not> cl_gameStarted cl \<or> gameContainerRef s = None \<Longrightarrow>
   createBird cl fo d s = s"
  by (auto simp: createBird_def)

lemma createBird_running:
  assumes "\<not> cl_gameOver cl" and "cl_gameStarted cl" and "gameContainerRef s = Some ct"
  shows "createBird cl fo d s =
     (let p = spawnGeometry ct fo d;
          x = fst p;
          y = fst (snd p);
          birdType = getRandomBird (r_bird d);
          v = spawnVelocity (fst (snd (snd p)) - x) (snd (snd (snd p)) - y) (cl_seconds cl)
                (r_speed d);
          a = fst (acquire birdType (d_now d) s);
          s1 = snd (acquire birdType (d_now d) s);
          key = getCellKeyFromXY (Fin x) (Fin y) (max 1 (getScaledSize (Some ct) 32 * 2))
      in s1\<lparr>heap := (heap s1)
                 (a := (resetFields (r_id d) birdType x y (fst v) (snd v) (d_now d) (heap s1 a))
                         \<lparr>cellKey := Some key\<rparr>),
             birdsRef := birdsRef s1 @ [a],
             spatialHashRef := hash_add key a (spatialHashRef s1)\<rparr>)"
  using assms
  by (simp add: createBird_def Let_def spatialInsert_def resetFields_literal)

lemma acquire_fst:
  "fst (acquire bt t s) = (if birdPoolRef s = [] then nextAddr s else last (birdPoolRef s))"
  by (simp add: acquire_def)

lemma acquire_snd_fields [simp]:
  "birdsRef (snd (acquire bt t s)) = birdsRef s"
  "birdPoolRef (snd (acquire bt t s)) = butlast (birdPoolRef s)"
  "spatialHashRef (snd (acquire bt t s)) = spatialHashRef s"
  by (simp_all add: acquire_def)

text \<open>
  In a container of zero width and height the spawn distance is zero, and the spawn point
  and the target point are both the origin, whatever the side and the draws.
\<close>

lemma spawnGeometry_zero:
  assumes "clientWidth ct = 0" and "clientHeight ct = 0"
  shows "spawnGeometry ct fo d = (0, 0, 0, 0)"
  using assms
  by (cases fo) (simp_all add: spawnGeometry_def spawnPoint_def getScaledSize_def Let_def)

section \<open>Pool acquisition\<close>

text \<open>
  Claim C8. When its guard passes (the captured round is running and the container is
  mounted), \<open>createBird\<close> takes the last instance of the pool, or a newly allocated one
  when the pool is empty, and appends it to the active list. The reset assigns every field
  of the instance, whatever it held before: a new id, the selected species, the spawn
  position, the computed velocity, the direction given by the sign of the horizontal
  velocity, the spawn \<open>y\<close> as initial \<open>y\<close>, the status \<open>flying\<close>, frame 0 with the
  current time, the active flag, and no bucket key. When \<open>createBird\<close> returns, the
  instance differs from that only in its bucket key, which the insertion into the spatial
  index has set to the cell of the spawn position.
\<close>

theorem createBird_resets_instance:
  assumes "\<not> cl_gameOver cl" and "cl_gameStarted cl" and "gameContainerRef s = Some ct"
  shows "let a = (if birdPoolRef s = [] then nextAddr s else last (birdPoolRef s));
             p = spawnGeometry ct fo d;
             x = fst p;
             y = fst (snd p);
             v = spawnVelocity (fst (snd (snd p)) - x) (snd (snd (snd p)) - y)
                   (cl_seconds cl) (r_speed d);
             s' = createBird cl fo d s
         in birdsRef s' = birdsRef s @ [a] \<and>
            birdPoolRef s' = butlast (birdPoolRef s) \<and>
            resetFields (r_id d) (getRandomBird (r_bird d)) x y (fst v) (snd v) (d_now d) inst =
              \<lparr>bird_id = r_id d, bird = getRandomBird (r_bird d), pos_x = Fin x, pos_y = Fin y,
               velocityX = fst v, velocityY = snd v,
               direction = (if jlt (Fin 0) (fst v) then right else left),
               initialY = Fin y, status = flying, currentFrame = 0, lastFrameTime = d_now d,
               active = True, cellKey = None\<rparr> \<and>
            heap s' a =
              \<lparr>bird_id = r_id d, bird = getRandomBird (r_bird d), pos_x = Fin x, pos_y = Fin y,
               velocityX = fst v, velocityY = snd v,
               direction = (if jlt (Fin 0) (fst v) then right else left),
               initialY = Fin y, status = flying, currentFrame = 0, lastFrameTime = d_now d,
               active = True,
               cellKey = Some (getCellKeyFromXY (Fin x) (Fin y)
                                 (max 1 (getScaledSize (Some ct) 32 * 2)))\<rparr>"
  by (simp add: createBird_running [OF assms] Let_def acquire_fst resetFields_literal)

theorem createBird_resets_instance_witness:
  "capture pooledGame = runningClosure \<and>
   birdsRef (createBird runningClosure None draws1 pooledGame) = [5] \<and>
   birdPoolRef (createBird runningClosure None draws1 pooledGame) = [] \<and>
   bird_id (heap (createBird runningClosure None draws1 pooledGame) 5) = ''n1'' \<and>
   name (bird (heap (createBird runningClosure None draws1 pooledGame) 5)) = ''Butterfly'' \<and>
   status (heap (createBird runningClosure None draws1 pooledGame) 5) = flying \<and>
   currentFrame (heap (createBird runningClosure None draws1 pooledGame) 5) = 0 \<and>
   lastFrameTime (heap (createBird runningClosure None draws1 pooledGame) 5) = 1000 \<and>
   active (heap (createBird runningClosure None draws1 pooledGame) 5)"
  using createBird_resets_instance
          [of runningClosure pooledGame fullContainer None draws1 usedInstance]
  by (simp add: pooledGame_def startedGame_eq initialGame_def draws1_def Let_def
        name_getRandomBird runningClosure_def gameContainerRef_def capture_def)

section \<open>Clamping of the hand input\<close>

text \<open>
  Claim C10. With hand mode enabled and the container mounted, a hand event with a palm
  centre sets the cursor to the palm coordinates clamped into \<open>[0, 1]\<close> and scaled by the
  width and height of the container's rectangle, so the cursor lies between 0 and the
  rectangle's width and between 0 and its height, whatever coordinates the feed reports.
\<close>

theorem onHandData_in_container:
  assumes "handModeEnabled s" and "gameContainerRef s = Some ct"
    and "0 \<le> rectWidth ct" and "0 \<le> rectHeight ct"
  shows "cursorPosRef (onHandData (Some (px, py)) s) =
           (max 0 (min 1 px) * rectWidth ct, max 0 (min 1 py) * rectHeight ct) \<and>
         0 \<le> fst (cursorPosRef (onHandData (Some (px, py)) s)) \<and>
         fst (cursorPosRef (onHandData (Some (px, py)) s)) \<le> rectWidth ct \<and>
         0 \<le> snd (cursorPosRef (onHandData (Some (px, py)) s)) \<and>
         snd (cursorPosRef (onHandData (Some (px, py)) s)) \<le> rectHeight ct"
proof -
  have x: "0 \<le> max 0 (min 1 px)" "max 0 (min 1 px) \<le> 1" by simp_all
  have y: "0 \<le> max 0 (min 1 py)" "max 0 (min 1 py) \<le> 1" by simp_all
  have eq: "cursorPosRef (onHandData (Some (px, py)) s) =
           (max 0 (min 1 px) * rectWidth ct, max 0 (min 1 py) * rectHeight ct)"
    using assms(1,2) by (simp add: onHandData_def updateHandPosition_def Let_def)
  show ?thesis
    unfolding eq fst_conv snd_conv
    using x y assms(3,4) by (intro conjI refl mult_nonneg_nonneg mult_left_le_one_le)
qed

theorem onHandData_in_container_witness:
  "cursorPosRef (onHandData (Some (3 / 2, - 1 / 5))
       ((startedGame (Some fullContainer) None)\<lparr>handModeEnabled := True\<rparr>)) = (904, 0)"
  using onHandData_in_container
    [of "(startedGame (Some fullContainer) None)\<lparr>handModeEnabled := True\<rparr>" fullContainer
        "3 / 2" "- 1 / 5"]
  by (simp add: startedGame_eq initialGame_def fullContainer_def gameContainerRef_def)

section \<open>Hit registration\<close>

lemma scanCell_flying: "a \<in> set (scanCell s k) \<Longrightarrow> status (heap s a) = flying"
  by (cases "spatialHashRef s k") (auto simp: scanCell_def)

lemma queryNearbyBirds_flying:
  "a \<in> set (queryNearbyBirds s x y r) \<Longrightarrow> status (heap s a) = flying"
  by (auto simp: queryNearbyBirds_def Let_def dest: scanCell_flying)

lemma catchBird_None:
  "find (\<lambda>b. bird_id (heap s b) = i) (birdsRef s) = None \<Longrightarrow> catchBird i d s = s"
  by (simp add: catchBird_def)

lemma catchBird_hit:
  "find (\<lambda>b. bird_id (heap s b) = i) (birdsRef s) = Some t \<Longrightarrow> status (heap s t) = hit \<Longrightarrow>
   catchBird i d s = s"
  by (simp add: catchBird_def Let_def)

lemma catchBird_flying:
  "find (\<lambda>b. bird_id (heap s b) = i) (birdsRef s) = Some t \<Longrightarrow> status (heap s t) = flying \<Longrightarrow>
   catchBird i d s =
     s\<lparr>hitHistory := hitHistory s @
          [\<lparr>hit_birdType = name (bird (heap s t)), hit_points = points (bird (heap s t)),
            hit_timestamp = c_now d\<rparr>],
       floatingPointsRef := floatingPointsRef s @
          [\<lparr>fp_id = c_id d, fp_points = points (bird (heap s t)), fp_x = pos_x (heap s t),
            fp_y = pos_y (heap s t), opacity = 1\<rparr>],
       heap := (heap s)(t := (heap s t)\<lparr>status := hit, velocityX := Fin 0, velocityY := Fin 2\<rparr>)\<rparr>"
  by (simp add: catchBird_def Let_def)

lemma catchBird_twice: "catchBird i d' (catchBird i d s) = catchBird i d s"
proof (cases "find (\<lambda>b. bird_id (heap s b) = i) (birdsRef s)")
  case None
  then show ?thesis by (simp add: catchBird_None)
next
  case (Some t)
  show ?thesis
  proof (cases "status (heap s t)")
    case hit
    with Some show ?thesis by (simp add: catchBird_hit)
  next
    case flying
    let ?s' = "catchBird i d s"
    have same: "(\<lambda>b. bird_id (heap ?s' b) = i) = (\<lambda>b. bird_id (heap s b) = i)"
      by (rule ext) (simp add: catchBird_flying [OF Some flying])
    have "find (\<lambda>b. bird_id (heap ?s' b) = i) (birdsRef ?s') = Some t"
      unfolding same using Some by (simp add: catchBird_flying [OF Some flying])
    moreover have "status (heap ?s' t) = hit"
      by (simp add: catchBird_flying [OF Some flying])
    ultimately show ?thesis by (rule catchBird_hit)
  qed
qed

lemma catchBird_heap_other: "u \<notin> set (birdsRef s) \<Longrightarrow> heap (catchBird i d s) u = heap s u"
  by (auto simp: catchBird_def Let_def find_Some_iff split: option.splits)

text \<open>
  Claim C2. Every target that \<open>queryNearbyBirds\<close> returns is \<open>flying\<close>. \<open>catchBird\<close>
  looks its target up in the active list by id: when the target it finds is already
  \<open>hit\<close>, or when it finds none (a retired target is not in the active list), it changes
  nothing, so there is no second transition and no further history entry, and it never
  writes to an instance outside the active list. When the target it finds is \<open>flying\<close>
  it sets the status to \<open>hit\<close> and appends one entry with the target's species and
  points. A second \<open>catchBird\<close> for the same id changes nothing.
\<close>

theorem hit_registration_idempotent:
  "(a \<in> set (queryNearbyBirds s x y r) \<longrightarrow> status (heap s a) = flying) \<and>
   (find (\<lambda>b. bird_id (heap s b) = i) (birdsRef s) = Some t \<and> status (heap s t) = hit \<longrightarrow>
      catchBird i d s = s) \<and>
   (find (\<lambda>b. bird_id (heap s b) = i) (birdsRef s) = None \<longrightarrow> catchBird i d s = s) \<and>
   (u \<notin> set (birdsRef s) \<longrightarrow> heap (catchBird i d s) u = heap s u) \<and>
   (find (\<lambda>b. bird_id (heap s b) = i) (birdsRef s) = Some t \<and> status (heap s t) = flying \<longrightarrow>
      status (heap (catchBird i d s) t) = hit \<and>
      hitHistory (catchBird i d s) = hitHistory s @
        [\<lparr>hit_birdType = name (bird (heap s t)), hit_points = points (bird (heap s t)),
          hit_timestamp = c_now d\<rparr>]) \<and>
   catchBird i d' (catchBird i d s) = catchBird i d s"
  by (simp add: queryNearbyBirds_flying catchBird_hit catchBird_None catchBird_heap_other
        catchBird_flying catchBird_twice)

lemma find_oneBirdGame:
  "find (\<lambda>b. bird_id (heap oneBirdGame b) = ''n1'') (birdsRef oneBirdGame) = Some 0"
  "find (\<lambda>b. bird_id (heap oneBirdGame b) = ''zz'') (birdsRef oneBirdGame) = None"
  by (simp_all add: oneBirdGame_eq)

theorem hit_registration_idempotent_witness:
  "0 \<in> set (queryNearbyBirds oneBirdGame (- 90) 270 32) \<and>
   status (heap oneBirdGame 0) = flying \<and>
   status (heap (catchBird ''n1'' catch1 oneBirdGame) 0) = hit \<and>
   hitHistory (catchBird ''n1'' catch1 oneBirdGame) =
     [\<lparr>hit_birdType = ''Butterfly'', hit_points = 2, hit_timestamp = 2000\<rparr>] \<and>
   catchBird ''n1'' catch2 (catchBird ''n1'' catch1 oneBirdGame) =
     catchBird ''n1'' catch1 oneBirdGame \<and>
   catchBird ''zz'' catch1 oneBirdGame = oneBirdGame \<and>
   heap (catchBird ''n1'' catch1 oneBirdGame) 7 = heap oneBirdGame 7"
proof -
  let ?hitGame = "catchBird ''n1'' catch1 oneBirdGame"
  have q: "0 \<in> set (queryNearbyBirds oneBirdGame (- 90) 270 32)"
    by (simp add: queryNearbyBirds_def scanCell_def Let_def oneBirdGame_eq)
  have fl: "status (heap oneBirdGame 0) = flying" by (simp add: oneBirdGame_eq)
  have f1: "find (\<lambda>b. bird_id (heap ?hitGame b) = ''n1'') (birdsRef ?hitGame) = Some 0"
    by (simp add: catchBird_def Let_def oneBirdGame_eq)
  have h1: "status (heap ?hitGame 0) = hit"
    by (simp add: catchBird_def Let_def oneBirdGame_eq)
  have out: "7 \<notin> set (birdsRef oneBirdGame)" by (simp add: oneBirdGame_eq)
  have hist: "hitHistory oneBirdGame = []" "name (bird (heap oneBirdGame 0)) = ''Butterfly''"
    "points (bird (heap oneBirdGame 0)) = 2" "c_now catch1 = 2000"
    by (simp_all add: oneBirdGame_eq startedGame_eq initialGame_def birdTypes_def catch1_def)
  show ?thesis
    using hit_registration_idempotent
            [of 0 oneBirdGame "- 90" 270 32 "''n1''" 0 catch1 7 catch2]
          hit_registration_idempotent
            [of 0 oneBirdGame "- 90" 270 32 "''zz''" 0 catch1 7 catch2]
          hit_registration_idempotent
            [of 0 ?hitGame "- 90" 270 32 "''n1''" 0 catch2 7 catch2]
          q fl f1 h1 out hist find_oneBirdGame
    by simp
qed

section \<open>Neighbour query\<close>

lemma set_scanCell: "set (scanCell s k) = {a. inBucket s k a \<and> status (heap s a) = flying}"
  by (cases "spatialHashRef s k") (auto simp: scanCell_def inBucket_def)

lemma set_queryNearbyBirds:
  "set (queryNearbyBirds s x y r) =
     {a. status (heap s a) = flying \<and>
         (\<exists>dx\<in>{- 1, 0, 1}. \<exists>dy\<in>{- 1, 0, 1}.
            inBucket s (KInt (\<lfloor>x / max 1 (r * 2)\<rfloor> + dx), KInt (\<lfloor>y / max 1 (r * 2)\<rfloor> + dy)) a)}"
  by (auto simp: queryNearbyBirds_def Let_def set_scanCell)

lemma floor_near:
  fixes u v :: real
  assumes "\<bar>u - v\<bar> \<le> 1 / 2"
  shows "\<exists>d\<in>{- 1, 0, 1}. \<lfloor>u\<rfloor> = \<lfloor>v\<rfloor> + d"
proof -
  have "\<lfloor>u\<rfloor> - \<lfloor>v\<rfloor> \<le> 1" "- 1 \<le> \<lfloor>u\<rfloor> - \<lfloor>v\<rfloor>"
    using assms by linarith+
  then have "\<lfloor>u\<rfloor> - \<lfloor>v\<rfloor> = - 1 \<or> \<lfloor>u\<rfloor> - \<lfloor>v\<rfloor> = 0 \<or> \<lfloor>u\<rfloor> - \<lfloor>v\<rfloor> = 1" by linarith
  then show ?thesis by auto
qed

lemma cell_near:
  fixes tx x r :: real
  assumes "0 \<le> r" and "\<bar>tx - x\<bar> \<le> r"
  shows "\<exists>d\<in>{- 1, 0, 1}. \<lfloor>tx / max 1 (r * 2)\<rfloor> = \<lfloor>x / max 1 (r * 2)\<rfloor> + d"
proof (rule floor_near)
  let ?c = "max 1 (r * 2)"
  have c: "0 < ?c" "r * 2 \<le> ?c" by simp_all
  have "\<bar>tx / ?c - x / ?c\<bar> = \<bar>tx - x\<bar> / ?c"
    using c(1) by (simp add: diff_divide_distrib [symmetric])
  also have "\<dots> \<le> r / ?c" using assms(2) c(1) by (simp add: divide_right_mono)
  also have "\<dots> \<le> 1 / 2" using c assms(1) by (simp add: field_simps)
  finally show "\<bar>tx / ?c - x / ?c\<bar> \<le> 1 / 2" .
qed

lemma within_radius:
  fixes tx ty x y r :: real
  assumes "0 \<le> r" and "(tx - x) * (tx - x) + (ty - y) * (ty - y) \<le> r * r"
  shows "\<bar>tx - x\<bar> \<le> r" and "\<bar>ty - y\<bar> \<le> r"
proof -
  have "(tx - x)\<^sup>2 \<le> r\<^sup>2" "(ty - y)\<^sup>2 \<le> r\<^sup>2"
    using assms(2) by (simp_all add: power2_eq_square) (smt (verit) zero_le_square)+
  then show "\<bar>tx - x\<bar> \<le> r" "\<bar>ty - y\<bar> \<le> r"
    using assms(1) by (simp_all add: abs_le_square_iff [symmetric])
qed

text \<open>
  Claim C5. With the cell size \<open>max(1, 2r)\<close>, \<open>queryNearbyBirds\<close> returns exactly the
  \<open>flying\<close> targets stored in the nine cells whose indices differ by at most one from
  those of the cell of the query point. A \<open>flying\<close> target that the index holds in the
  cell of its stored position, that position being within distance \<open>r\<close> of the query
  point, lies in one of the nine cells and is returned.
\<close>

theorem queryNearbyBirds_coverage:
  "set (queryNearbyBirds s x y r) =
     {a. status (heap s a) = flying \<and>
         (\<exists>dx\<in>{- 1, 0, 1}. \<exists>dy\<in>{- 1, 0, 1}.
            inBucket s (KInt (\<lfloor>x / max 1 (r * 2)\<rfloor> + dx), KInt (\<lfloor>y / max 1 (r * 2)\<rfloor> + dy)) a)} \<and>
   (0 \<le> r \<and> status (heap s a) = flying \<and>
    pos_x (heap s a) = Fin tx \<and> pos_y (heap s a) = Fin ty \<and>
    inBucket s (getCellKeyFromXY (pos_x (heap s a)) (pos_y (heap s a)) (max 1 (r * 2))) a \<and>
    (tx - x) * (tx - x) + (ty - y) * (ty - y) \<le> r * r
    \<longrightarrow> a \<in> set (queryNearbyBirds s x y r))"
proof (intro conjI impI)
  show "set (queryNearbyBirds s x y r) =
     {a. status (heap s a) = flying \<and>
         (\<exists>dx\<in>{- 1, 0, 1}. \<exists>dy\<in>{- 1, 0, 1}.
            inBucket s (KInt (\<lfloor>x / max 1 (r * 2)\<rfloor> + dx), KInt (\<lfloor>y / max 1 (r * 2)\<rfloor> + dy)) a)}"
    by (rule set_queryNearbyBirds)
next
  assume h: "0 \<le> r \<and> status (heap s a) = flying \<and>
    pos_x (heap s a) = Fin tx \<and> pos_y (heap s a) = Fin ty \<and>
    inBucket s (getCellKeyFromXY (pos_x (heap s a)) (pos_y (heap s a)) (max 1 (r * 2))) a \<and>
    (tx - x) * (tx - x) + (ty - y) * (ty - y) \<le> r * r"
  then have r: "0 \<le> r" and fl: "status (heap s a) = flying"
    and px: "pos_x (heap s a) = Fin tx" and py: "pos_y (heap s a) = Fin ty"
    and ib: "inBucket s (getCellKeyFromXY (pos_x (heap s a)) (pos_y (heap s a)) (max 1 (r * 2))) a"
    and d: "(tx - x) * (tx - x) + (ty - y) * (ty - y) \<le> r * r" by blast+
  have pos: "max 1 (r * 2) \<noteq> 0" by (simp add: max_def)
  have b: "inBucket s (KInt \<lfloor>tx / max 1 (r * 2)\<rfloor>, KInt \<lfloor>ty / max 1 (r * 2)\<rfloor>) a"
    using ib by (simp add: getCellKeyFromXY_def px py pos)
  obtain dx where dx: "dx \<in> {- 1, 0, 1}" "\<lfloor>tx / max 1 (r * 2)\<rfloor> = \<lfloor>x / max 1 (r * 2)\<rfloor> + dx"
    using cell_near [OF r within_radius(1) [OF r d]] by blast
  obtain dy where dy: "dy \<in> {- 1, 0, 1}" "\<lfloor>ty / max 1 (r * 2)\<rfloor> = \<lfloor>y / max 1 (r * 2)\<rfloor> + dy"
    using cell_near [OF r within_radius(2) [OF r d]] by blast
  show "a \<in> set (queryNearbyBirds s x y r)"
    unfolding set_queryNearbyBirds using fl b dx dy by auto
qed

theorem queryNearbyBirds_coverage_witness:
  "pos_x (heap oneBirdGame 0) = Fin (- 100) \<and> pos_y (heap oneBirdGame 0) = Fin 252 \<and>
   inBucket oneBirdGame (KInt (- 2), KInt 3) 0 \<and>
   (- 100 - (- 90)) * (- 100 - (- 90)) + (252 - 270) * (252 - 270) \<le> (32 :: real) * 32 \<and>
   0 \<in> set (queryNearbyBirds oneBirdGame (- 90) 270 32)"
proof -
  have f: "pos_x (heap oneBirdGame 0) = Fin (- 100)" "pos_y (heap oneBirdGame 0) = Fin 252"
    "status (heap oneBirdGame 0) = flying" "inBucket oneBirdGame (KInt (- 2), KInt 3) 0"
    by (simp_all add: oneBirdGame_eq inBucket_def)
  show ?thesis
    using queryNearbyBirds_coverage [of oneBirdGame "- 90" 270 32 0 "- 100" 252] f
    by (simp add: getCellKeyFromXY_def)
qed

section \<open>Swap-removal\<close>

lemma birdsRef_retire_swap: "birdsRef (retire i a s) = swap_remove i (birdsRef s)"
  by (simp add: birdsRef_retire swap_remove_def)

lemma swap_remove_snoc:
  "swap_remove i (xs @ [l]) = (if i < length xs then xs[i := l] else xs)"
  by (simp add: swap_remove_def)

lemma swap_remove_facts:
  assumes "i < length bs" and "distinct bs"
  shows "set (swap_remove i bs) = set bs - {bs ! i}"
    and "distinct (swap_remove i bs)"
    and "set (drop i (swap_remove i bs)) = set (drop (Suc i) bs)"
proof -
  from assms(1) obtain xs l where bs: "bs = xs @ [l]"
    by (cases bs rule: rev_cases) auto
  from assms(2) bs have d: "distinct xs" "l \<notin> set xs" by simp_all
  show "set (swap_remove i bs) = set bs - {bs ! i}"
  proof (cases "i < length xs")
    case True
    with d have "set (xs[i := l]) = insert l (set xs - {xs ! i})"
      by (simp add: set_update_distinct)
    with True d show ?thesis
      unfolding bs swap_remove_snoc by (auto simp: nth_append)
  next
    case False
    with assms(1) bs have "i = length xs" by simp
    with d show ?thesis unfolding bs swap_remove_snoc by auto
  qed
  show "distinct (swap_remove i bs)"
    unfolding bs swap_remove_snoc using d by (simp add: distinct_list_update)
  show "set (drop i (swap_remove i bs)) = set (drop (Suc i) bs)"
  proof (cases "i < length xs")
    case True
    then have "drop i (xs[i := l]) = l # drop (Suc i) xs"
      by (simp add: drop_update_cancel Cons_nth_drop_Suc [symmetric] upd_conv_take_nth_drop)
    with True show ?thesis unfolding bs swap_remove_snoc by auto
  next
    case False
    then show ?thesis unfolding bs swap_remove_snoc by simp
  qed
qed

section \<open>Buckets of the spatial hash\<close>

lemma inBucket_hashMember: "inBucket s k a = hashMember (spatialHashRef s) k a"
  by (simp add: inBucket_def hashMember_def)

lemma hashMember_add:
  "hashMember (hash_add k a m) k' a' = (hashMember m k' a' \<or> (k' = k \<and> a' = a))"
  by (cases "m k") (auto simp: hashMember_def hash_add_def bucket_add_def)

lemma hashMember_delete:
  "hashMember (hash_delete k a m) k' a' = (hashMember m k' a' \<and> \<not> (k' = k \<and> a' = a))"
proof (cases "m k")
  case None
  then show ?thesis by (auto simp: hashMember_def hash_delete_def)
next
  case (Some bk)
  show ?thesis
  proof (cases "removeAll a bk = []")
    case True
    then have "set bk \<subseteq> {a}" by (metis Diff_eq_empty_iff set_empty set_removeAll)
    with True Some show ?thesis
      by (auto simp: hashMember_def hash_delete_def bucket_delete_def)
  next
    case False
    with Some show ?thesis
      by (auto simp: hashMember_def hash_delete_def bucket_delete_def)
  qed
qed

lemma buckets_wf_add: "buckets_wf m \<Longrightarrow> buckets_wf (hash_add k a m)"
  by (cases "m k") (auto simp: buckets_wf_def hash_add_def bucket_add_def)

lemma buckets_wf_delete: "buckets_wf m \<Longrightarrow> buckets_wf (hash_delete k a m)"
  by (cases "m k") (auto simp: buckets_wf_def hash_delete_def bucket_delete_def distinct_removeAll)

lemma buckets_wf_empty: "buckets_wf Map.empty"
  by (simp add: buckets_wf_def)

section \<open>Consistency of the spatial index with the active list\<close>

lemma reposition_consistent:
  assumes ic: "index_consistent s" and ky: "keyed cs s" and a: "a \<in> set (birdsRef s)"
    and ck: "cellKey b' = cellKey (heap s a)"
  shows "index_consistent (spatialUpdateIfMoved a cs (s\<lparr>heap := (heap s)(a := b')\<rparr>))"
    and "keyed cs (spatialUpdateIfMoved a cs (s\<lparr>heap := (heap s)(a := b')\<rparr>))"
proof -
  let ?s0 = "s\<lparr>heap := (heap s)(a := b')\<rparr>"
  let ?nk = "getCellKeyFromXY (pos_x b') (pos_y b') cs"
  from ky a obtain k where k: "cellKey (heap s a) = Some k" by (auto simp: keyed_def)
  have ic0: "index_consistent ?s0"
    using ic ck by (auto simp: index_consistent_def inBucket_hashMember)
  show "index_consistent (spatialUpdateIfMoved a cs ?s0)"
  proof (cases "k = ?nk")
    case True
    then show ?thesis using ic0 k ck by (simp add: spatialUpdateIfMoved_def Let_def)
  next
    case False
    then show ?thesis
      using ic k ck a
      by (auto simp: spatialUpdateIfMoved_def Let_def index_consistent_def inBucket_hashMember
            hashMember_add hashMember_delete buckets_wf_add buckets_wf_delete)
  qed
  show "keyed cs (spatialUpdateIfMoved a cs ?s0)"
    using ky k ck by (auto simp: spatialUpdateIfMoved_def Let_def keyed_def)
qed

lemma retire_consistent:
  assumes ic: "index_consistent s" and ky: "keyed cs s" and i: "i < length (birdsRef s)"
    and a: "a = birdsRef s ! i"
  shows "index_consistent (retire i a s)" and "keyed cs (retire i a s)"
proof -
  from ic have d: "distinct (birdsRef s)" by (simp add: index_consistent_def)
  note sw = swap_remove_facts [OF i d]
  have ain: "a \<in> set (birdsRef s)" using i a by simp
  from ky ain obtain k where k: "cellKey (heap s a) = Some k" by (auto simp: keyed_def)
  have fields:
    "birdsRef (retire i a s) = swap_remove i (birdsRef s)"
    "birdPoolRef (retire i a s) = birdPoolRef s @ [a]"
    "nextAddr (retire i a s) = nextAddr s"
    "spatialHashRef (retire i a s) = hash_delete k a (spatialHashRef s)"
    "heap (retire i a s) = (heap s)(a := (heap s a)\<lparr>cellKey := None, active := False\<rparr>)"
    using k by (simp_all add: retire_def swap_remove_def spatialRemove_def Let_def)
  show "index_consistent (retire i a s)"
    unfolding index_consistent_def fields inBucket_hashMember
    using ic sw ain a k
    by (auto simp: index_consistent_def inBucket_hashMember hashMember_delete buckets_wf_delete)
  show "keyed cs (retire i a s)"
    unfolding keyed_def fields using ky sw a by (auto simp: keyed_def)
qed

lemma heap_change_consistent:
  assumes "index_consistent s" and "keyed cs s"
    and "cellKey b' = cellKey (heap s a)" and "pos_x b' = pos_x (heap s a)"
    and "pos_y b' = pos_y (heap s a)"
  shows "index_consistent (s\<lparr>heap := (heap s)(a := b')\<rparr>)"
    and "keyed cs (s\<lparr>heap := (heap s)(a := b')\<rparr>)"
  using assms by (auto simp: index_consistent_def keyed_def inBucket_hashMember)

lemma roundView_spatialUpdateIfMoved [simp]:
  "roundView (spatialUpdateIfMoved a c s) = roundView s"
  "hitHistory (spatialUpdateIfMoved a c s) = hitHistory s"
  by (simp_all add: spatialUpdateIfMoved_def Let_def roundView_def)

lemma roundView_spatialRemove [simp]:
  "roundView (spatialRemove a s) = roundView s"
  "hitHistory (spatialRemove a s) = hitHistory s"
  by (simp_all add: spatialRemove_def Let_def roundView_def split: option.splits)

lemma roundView_heap_update [simp]: "roundView (s\<lparr>heap := h\<rparr>) = roundView s"
  by (simp add: roundView_def)

lemma roundView_retire [simp]:
  "roundView (retire i a s) = roundView s"
  "hitHistory (retire i a s) = hitHistory s"
proof -
  have "roundView (retire i a s) = roundView (spatialRemove a s)"
    by (simp add: retire_def Let_def roundView_def)
  then show "roundView (retire i a s) = roundView s" by simp
  have "hitHistory (retire i a s) = hitHistory (spatialRemove a s)"
    by (simp add: retire_def Let_def)
  then show "hitHistory (retire i a s) = hitHistory s" by simp
qed

lemma roundView_stepBird [simp]:
  "roundView (snd (stepBird w h c rnd i s)) = roundView s"
  "hitHistory (snd (stepBird w h c rnd i s)) = hitHistory s"
  by (simp_all add: stepBird_def Let_def fallStep_def moveTo_def)

lemma roundView_simLoop [simp]:
  "roundView (simLoop w h c rnd i s) = roundView s \<and>
   hitHistory (simLoop w h c rnd i s) = hitHistory s"
proof (induction w h c rnd i s rule: simLoop.induct)
  case (1 w h c rnd i s)
  show ?case
  proof (cases "i < length (birdsRef s)")
    case False
    then show ?thesis by (simp add: simLoop.simps [of w h c rnd i s])
  next
    case True
    show ?thesis
    proof (cases "fst (stepBird w h c rnd i s)")
      case True
      with 1(1) [OF \<open>i < length (birdsRef s)\<close> refl True] \<open>i < length (birdsRef s)\<close>
      show ?thesis by (simp add: simLoop.simps [of w h c rnd i s])
    next
      case False
      with 1(2) [OF \<open>i < length (birdsRef s)\<close> refl False] \<open>i < length (birdsRef s)\<close>
      show ?thesis by (simp add: simLoop.simps [of w h c rnd i s])
    qed
  qed
qed

lemma roundView_simulationStep [simp]:
  "roundView (simulationStep rnd s) = roundView s"
  "hitHistory (simulationStep rnd s) = hitHistory s"
  by (simp_all add: simulationStep_def Let_def split: option.splits)

lemma roundView_createBird [simp]:
  "roundView (createBird cl fo d s) = roundView s"
  "hitHistory (createBird cl fo d s) = hitHistory s"
  by (simp_all add: createBird_def Let_def acquire_def spatialInsert_def roundView_def
        split: option.splits)

lemma roundView_createFlock [simp]:
  "roundView (createFlock cl fd s) = roundView s"
  "hitHistory (createFlock cl fd s) = hitHistory s"
  by (simp_all add: createFlock_def Let_def roundView_def split: option.splits)

lemma roundView_fireFlockTimer [simp]:
  "roundView (fireFlockTimer n d s) = roundView s"
  "hitHistory (fireFlockTimer n d s) = hitHistory s"
  by (simp_all add: fireFlockTimer_def) (simp add: roundView_def)

lemma roundView_catchBird [simp]: "roundView (catchBird i d s) = roundView s"
  by (simp add: catchBird_def Let_def roundView_def split: option.splits)

lemma roundView_hitCandidates [simp]:
  "roundView (hitCandidates cx cy r2 ds n cands s) = roundView s"
  by (induction cx cy r2 ds n cands s rule: hitCandidates.induct) (simp_all add: Let_def)

lemma roundView_hitTest [simp]: "roundView (hitTest cx cy ds s) = roundView s"
  by (simp add: hitTest_def Let_def)

lemma roundView_fields:
  assumes "roundView s' = roundView s"
  shows "gameOver s' = gameOver s" and "gameStarted s' = gameStarted s"
    and "seconds s' = seconds s" and "countdown s' = countdown s"
    and "address s' = address s" and "saved s' = saved s"
    and "containerLayout s' = containerLayout s"
    and "handModeEnabled s' = handModeEnabled s"
    and "gameContainerRef s' = gameContainerRef s"
  using assms by (simp_all add: roundView_def gameContainerRef_def)

lemma index_inv_stepBird:
  assumes inv: "index_inv c s" and i: "i < length (birdsRef s)"
  shows "index_inv c (snd (stepBird w h (cellSizeOf c) rnd i s))"
proof -
  let ?a = "birdsRef s ! i"
  from inv have ic: "index_consistent s" and ky: "keyed (cellSizeOf c) s"
    and gc: "containerLayout s = c" by (simp_all add: index_inv_def)
  have a: "?a \<in> set (birdsRef s)" using i by simp
  have gc': "containerLayout (snd (stepBird w h (cellSizeOf c) rnd i s)) = c"
    using roundView_fields(7) [OF roundView_stepBird(1)] gc by simp
  show ?thesis
  proof (cases "status (heap s ?a) = hit")
    case True
    let ?b2 = "(heap s ?a)\<lparr>velocityY := jadd (velocityY (heap s ?a)) (Fin 0.1),
                 pos_y := jadd (pos_y (heap s ?a)) (jadd (velocityY (heap s ?a)) (Fin 0.1))\<rparr>"
    have fs: "fallStep ?a (cellSizeOf c) s =
                spatialUpdateIfMoved ?a (cellSizeOf c) (s\<lparr>heap := (heap s)(?a := ?b2)\<rparr>)"
      by (simp add: fallStep_def Let_def)
    have ck: "cellKey ?b2 = cellKey (heap s ?a)" by simp
    note r = reposition_consistent [OF ic ky a ck]
    have ifs: "index_consistent (fallStep ?a (cellSizeOf c) s)"
      and kfs: "keyed (cellSizeOf c) (fallStep ?a (cellSizeOf c) s)"
      and lfs: "birdsRef (fallStep ?a (cellSizeOf c) s) ! i = ?a"
               "i < length (birdsRef (fallStep ?a (cellSizeOf c) s))"
      using r i unfolding fs by simp_all
    note rt = retire_consistent [OF ifs kfs lfs(2) lfs(1) [symmetric]]
    show ?thesis
      using True ifs kfs rt gc' by (simp add: index_inv_def stepBird_def Let_def)
  next
    case False
    let ?t = "flightTarget (heap s ?a) (rnd ?a)"
    let ?b2 = "(heap s ?a)\<lparr>pos_x := fst ?t, pos_y := snd ?t\<rparr>"
    have ck: "cellKey ?b2 = cellKey (heap s ?a)" by simp
    note r = reposition_consistent [OF ic ky a ck]
    note rt = retire_consistent [OF ic ky i refl]
    show ?thesis
      using False r rt gc' by (simp add: index_inv_def stepBird_def Let_def moveTo_def)
  qed
qed

lemma index_inv_simLoop:
  "index_inv c s \<Longrightarrow> cs = cellSizeOf c \<Longrightarrow> index_inv c (simLoop w h cs rnd i s)"
proof (induction w h cs rnd i s rule: simLoop.induct)
  case (1 w h cs rnd i s)
  show ?case
  proof (cases "i < length (birdsRef s)")
    case False
    with 1(3) show ?thesis by (simp add: simLoop.simps [of w h cs rnd i s])
  next
    case True
    have st: "index_inv c (snd (stepBird w h cs rnd i s))"
      using index_inv_stepBird [OF 1(3) True] 1(4) by simp
    show ?thesis
    proof (cases "fst (stepBird w h cs rnd i s)")
      case True
      with 1(1) [OF \<open>i < length (birdsRef s)\<close> refl True st 1(4)] \<open>i < length (birdsRef s)\<close>
      show ?thesis by (simp add: simLoop.simps [of w h cs rnd i s])
    next
      case False
      with 1(2) [OF \<open>i < length (birdsRef s)\<close> refl False st 1(4)] \<open>i < length (birdsRef s)\<close>
      show ?thesis by (simp add: simLoop.simps [of w h cs rnd i s])
    qed
  qed
qed

lemma index_inv_simulationStep: "index_inv c s \<Longrightarrow> index_inv c (simulationStep rnd s)"
proof -
  assume inv: "index_inv c s"
  then have gc: "containerLayout s = c" by (simp add: index_inv_def)
  show ?thesis
  proof (cases "gameContainerRef s")
    case None
    with inv show ?thesis by (simp add: simulationStep_def)
  next
    case (Some ct)
    with gc have "c = Some ct" by (simp add: gameContainerRef_def split: if_splits)
    then have "max 1 (getScaledSize (Some ct) 32 * 2) = cellSizeOf c"
      by (simp add: cellSizeOf_def)
    then show ?thesis
      using inv Some index_inv_simLoop [OF inv]
      by (simp add: simulationStep_def Let_def)
  qed
qed

lemma acquire_fresh:
  assumes ic: "index_consistent s"
  shows "fst (acquire bt t s) \<notin> set (birdsRef s)"
    and "fst (acquire bt t s) \<notin> set (birdPoolRef (snd (acquire bt t s)))"
    and "fst (acquire bt t s) < nextAddr (snd (acquire bt t s))"
    and "\<And>b. b \<in> set (birdsRef s) \<Longrightarrow> b < nextAddr (snd (acquire bt t s))"
    and "\<And>b. b \<in> set (birdPoolRef (snd (acquire bt t s))) \<Longrightarrow>
              b < nextAddr (snd (acquire bt t s)) \<and> b \<notin> set (birdsRef s)"
    and "distinct (birdPoolRef (snd (acquire bt t s)))"
    and "\<And>b. b \<noteq> fst (acquire bt t s) \<Longrightarrow> heap (snd (acquire bt t s)) b = heap s b"
proof -
  have all: "fst (acquire bt t s) \<notin> set (birdsRef s) \<and>
      fst (acquire bt t s) \<notin> set (birdPoolRef (snd (acquire bt t s))) \<and>
      fst (acquire bt t s) < nextAddr (snd (acquire bt t s)) \<and>
      (\<forall>b \<in> set (birdsRef s). b < nextAddr (snd (acquire bt t s))) \<and>
      (\<forall>b \<in> set (birdPoolRef (snd (acquire bt t s))).
          b < nextAddr (snd (acquire bt t s)) \<and> b \<notin> set (birdsRef s)) \<and>
      distinct (birdPoolRef (snd (acquire bt t s))) \<and>
      (\<forall>b. b \<noteq> fst (acquire bt t s) \<longrightarrow> heap (snd (acquire bt t s)) b = heap s b)"
  proof (cases "birdPoolRef s" rule: rev_cases)
    case Nil
    with ic show ?thesis by (auto simp: acquire_def index_consistent_def less_Suc_eq)
  next
    case (snoc ps p)
    with ic show ?thesis by (auto simp: acquire_def index_consistent_def)
  qed
  from all show "fst (acquire bt t s) \<notin> set (birdsRef s)"
    and "fst (acquire bt t s) \<notin> set (birdPoolRef (snd (acquire bt t s)))"
    and "fst (acquire bt t s) < nextAddr (snd (acquire bt t s))"
    and "\<And>b. b \<in> set (birdsRef s) \<Longrightarrow> b < nextAddr (snd (acquire bt t s))"
    and "\<And>b. b \<in> set (birdPoolRef (snd (acquire bt t s))) \<Longrightarrow>
              b < nextAddr (snd (acquire bt t s)) \<and> b \<notin> set (birdsRef s)"
    and "distinct (birdPoolRef (snd (acquire bt t s)))"
    and "\<And>b. b \<noteq> fst (acquire bt t s) \<Longrightarrow> heap (snd (acquire bt t s)) b = heap s b"
    by blast+
qed

lemma index_inv_createBird: "index_inv c s \<Longrightarrow> index_inv c (createBird cl fo d s)"
proof (cases "cl_gameOver cl \<or> \<not> cl_gameStarted cl \<or> gameContainerRef s = None")
  case True
  assume "index_inv c s"
  with createBird_noop [OF True] show ?thesis by simp
next
  case False
  assume inv: "index_inv c s"
  from False obtain ct
    where run: "\<not> cl_gameOver cl" "cl_gameStarted cl" "gameContainerRef s = Some ct"
    by auto
  from inv run have c: "c = Some ct"
    by (simp add: index_inv_def gameContainerRef_def split: if_splits)
  from inv have ic: "index_consistent s" and ky: "keyed (cellSizeOf c) s"
    by (simp_all add: index_inv_def)
  define bt where "bt = getRandomBird (r_bird d)"
  define a where "a = fst (acquire bt (d_now d) s)"
  define s1 where "s1 = snd (acquire bt (d_now d) s)"
  define p where "p = spawnGeometry ct fo d"
  define key where "key = getCellKeyFromXY (Fin (fst p)) (Fin (fst (snd p))) (cellSizeOf c)"
  define s' where "s' = createBird cl fo d s"
  note fr = acquire_fresh [OF ic, where bt = bt and t = "d_now d", folded a_def s1_def]
  have f: "birdsRef s' = birdsRef s @ [a]"
    "birdPoolRef s' = birdPoolRef s1"
    "nextAddr s' = nextAddr s1"
    "spatialHashRef s' = hash_add key a (spatialHashRef s)"
    "cellKey (heap s' a) = Some key"
    "pos_x (heap s' a) = Fin (fst p)" "pos_y (heap s' a) = Fin (fst (snd p))"
    unfolding s'_def a_def s1_def key_def p_def bt_def
    by (simp_all add: createBird_running [OF run] Let_def resetFields_literal c cellSizeOf_def)
  have other: "heap s' b = heap s b" if "b \<noteq> a" for b
    using that fr(7) [OF that] unfolding s'_def a_def s1_def bt_def
    by (simp add: createBird_running [OF run] Let_def)
  have d1: "distinct (birdsRef s')" using ic fr(1) by (simp add: f index_consistent_def)
  have d2: "distinct (birdPoolRef s')" using fr(6) by (simp add: f)
  have d3: "set (birdsRef s') \<inter> set (birdPoolRef s') = {}"
    using fr(2) fr(5) by (auto simp: f)
  have d4: "\<forall>b \<in> set (birdsRef s') \<union> set (birdPoolRef s'). b < nextAddr s'"
    using fr(3) fr(4) fr(5) by (auto simp: f)
  have d5: "buckets_wf (spatialHashRef s')"
    using ic by (simp add: f buckets_wf_add index_consistent_def)
  have mem: "hashMember (spatialHashRef s) k b \<longleftrightarrow>
               b \<in> set (birdsRef s) \<and> cellKey (heap s b) = Some k" for k b
    using ic unfolding index_consistent_def inBucket_hashMember by blast
  have d6: "inBucket s' k b \<longleftrightarrow> b \<in> set (birdsRef s') \<and> cellKey (heap s' b) = Some k" for k b
  proof (cases "b = a")
    case True
    then show ?thesis using fr(1) by (auto simp: inBucket_hashMember f hashMember_add mem)
  next
    case False
    then show ?thesis by (auto simp: inBucket_hashMember f hashMember_add mem other)
  qed
  have ic': "index_consistent s'"
    unfolding index_consistent_def using d1 d2 d3 d4 d5 d6 by blast
  have ky': "keyed (cellSizeOf c) s'"
    unfolding keyed_def
  proof
    fix b assume b: "b \<in> set (birdsRef s')"
    show "cellKey (heap s' b) =
            Some (getCellKeyFromXY (pos_x (heap s' b)) (pos_y (heap s' b)) (cellSizeOf c))"
    proof (cases "b = a")
      case True
      then show ?thesis by (simp add: f key_def)
    next
      case False
      with b have "b \<in> set (birdsRef s)" by (simp add: f)
      with ky False show ?thesis by (simp add: other keyed_def)
    qed
  qed
  have "containerLayout s' = c"
    using roundView_fields(7) [OF roundView_createBird(1), of cl fo d s] inv
    by (simp add: s'_def index_inv_def)
  with ic' ky' show ?thesis by (simp add: index_inv_def s'_def)
qed

lemma index_inv_cong:
  assumes "index_inv c s"
    and "birdsRef s' = birdsRef s" and "birdPoolRef s' = birdPoolRef s"
    and "nextAddr s' = nextAddr s" and "spatialHashRef s' = spatialHashRef s"
    and "containerLayout s' = containerLayout s"
    and "\<And>a. cellKey (heap s' a) = cellKey (heap s a) \<and> pos_x (heap s' a) = pos_x (heap s a) \<and>
              pos_y (heap s' a) = pos_y (heap s a)"
  shows "index_inv c s'"
  using assms
  by (simp add: index_inv_def index_consistent_def keyed_def inBucket_hashMember)

lemma index_inv_catchBird: "index_inv c s \<Longrightarrow> index_inv c (catchBird i d s)"
  by (erule index_inv_cong) (auto simp: catchBird_def Let_def split: option.splits)

lemma index_inv_hitCandidates:
  "index_inv c s \<Longrightarrow> index_inv c (hitCandidates cx cy r2 ds n cands s)"
  by (induction cx cy r2 ds n cands s rule: hitCandidates.induct)
     (simp_all add: Let_def index_inv_catchBird)

lemma index_inv_hitTest: "index_inv c s \<Longrightarrow> index_inv c (hitTest cx cy ds s)"
  by (simp add: hitTest_def Let_def index_inv_hitCandidates)

lemma index_inv_playAgain: "index_inv c s \<Longrightarrow> index_inv c (playAgain s)"
  by (simp add: index_inv_def index_consistent_def keyed_def playAgain_def resetGame_def
        inBucket_def buckets_wf_empty)

lemma index_inv_handle: "index_inv c s \<Longrightarrow> index_inv c (handle e s)"
proof (cases e)
  case (Spawn fo d)
  assume "index_inv c s"
  then show ?thesis unfolding Spawn handle.simps by (rule index_inv_createBird)
next
  case (Frame rnd)
  assume "index_inv c s"
  then show ?thesis unfolding Frame handle.simps by (rule index_inv_simulationStep)
next
  case (Click x y ds)
  assume "index_inv c s"
  then show ?thesis
    by (simp add: Click handleGameAreaClick_def index_inv_hitTest split: option.splits)
next
  case (Pinch ds)
  assume "index_inv c s"
  then show ?thesis by (simp add: Pinch onPinch_def index_inv_hitTest)
next
  case (HandData p)
  assume "index_inv c s"
  then show ?thesis
    unfolding HandData handle.simps
    by (rule index_inv_cong)
       (auto simp: onHandData_def updateHandPosition_def Let_def split: option.splits)
next
  case (MouseMove x y)
  assume "index_inv c s"
  then show ?thesis
    unfolding MouseMove handle.simps
    by (rule index_inv_cong) (auto simp: handleMouseMove_def split: option.splits)
next
  case ToggleHandMode
  assume "index_inv c s"
  then show ?thesis
    unfolding ToggleHandMode handle.simps by (rule index_inv_cong) auto
next
  case CountdownTick
  assume "index_inv c s"
  then show ?thesis
    unfolding CountdownTick handle.simps
    by (rule index_inv_cong) (auto simp: countdownTick_def)
next
  case SecondsTick
  assume "index_inv c s"
  then show ?thesis
    unfolding SecondsTick handle.simps
    by (rule index_inv_cong) (auto simp: secondsTick_def)
next
  case PlayAgain
  assume "index_inv c s"
  then show ?thesis by (simp add: PlayAgain index_inv_playAgain)
next
  case (Flock fd)
  assume "index_inv c s"
  then show ?thesis
    unfolding Flock handle.simps
    by (rule index_inv_cong) (auto simp: createFlock_def Let_def split: option.splits)
next
  case (FlockTimer n d)
  assume inv: "index_inv c s"
  have "index_inv c (s\<lparr>flockTimers := take n (flockTimers s) @ drop (Suc n) (flockTimers s)\<rparr>)"
    by (rule index_inv_cong [OF inv]) auto
  with inv show ?thesis
    by (simp add: FlockTimer fireFlockTimer_def index_inv_createBird)
next
  case (AddressChange a)
  assume "index_inv c s"
  then show ?thesis
    unfolding AddressChange handle.simps by (rule index_inv_cong) auto
qed

lemma index_inv_step: "index_inv c s \<Longrightarrow> index_inv c (step e s)"
proof -
  assume inv: "index_inv c s"
  have "index_inv c (saveGameDataEffect (handle e s))"
    by (rule index_inv_cong [OF index_inv_handle [OF inv]])
       (auto simp: saveGameDataEffect_def split: option.splits)
  with index_inv_handle [OF inv] show ?thesis by (simp add: step_def Let_def)
qed

lemma index_inv_run: "index_inv c s \<Longrightarrow> index_inv c (run es s)"
  by (induction es arbitrary: s) (simp_all add: index_inv_step)

lemma index_inv_initialGame: "index_inv c (initialGame c adr)"
  by (simp add: index_inv_def index_consistent_def keyed_def initialGame_def inBucket_def
        buckets_wf_empty)

lemma index_inv_buckets:
  assumes "index_inv c s"
  shows "(\<Union>bk \<in> ran (spatialHashRef s). set bk) = set (birdsRef s)"
    and "\<forall>a \<in> set (birdsRef s). \<exists>!k. inBucket s k a"
    and "\<forall>a \<in> set (birdsRef s).
           inBucket s (getCellKeyFromXY (pos_x (heap s a)) (pos_y (heap s a)) (cellSizeOf c)) a"
    and "\<forall>bk \<in> ran (spatialHashRef s). distinct bk \<and> bk \<noteq> []"
proof -
  from assms have mem: "inBucket s k a \<longleftrightarrow> a \<in> set (birdsRef s) \<and> cellKey (heap s a) = Some k"
    for k a unfolding index_inv_def index_consistent_def by blast
  from assms have ky: "a \<in> set (birdsRef s) \<Longrightarrow>
      cellKey (heap s a) = Some (getCellKeyFromXY (pos_x (heap s a)) (pos_y (heap s a)) (cellSizeOf c))"
    for a unfolding index_inv_def keyed_def by blast
  from assms have wf: "buckets_wf (spatialHashRef s)"
    unfolding index_inv_def index_consistent_def by blast
  have un: "(\<Union>bk \<in> ran (spatialHashRef s). set bk) = {a. \<exists>k. inBucket s k a}"
  proof (intro set_eqI iffI)
    fix a assume "a \<in> (\<Union>bk \<in> ran (spatialHashRef s). set bk)"
    then obtain k bk where "spatialHashRef s k = Some bk" "a \<in> set bk"
      by (auto simp: ran_def)
    then have "inBucket s k a" by (simp add: inBucket_def)
    then show "a \<in> {a. \<exists>k. inBucket s k a}" by blast
  next
    fix a assume "a \<in> {a. \<exists>k. inBucket s k a}"
    then obtain k where "inBucket s k a" by blast
    then obtain bk where "spatialHashRef s k = Some bk" "a \<in> set bk"
      by (cases "spatialHashRef s k") (simp_all add: inBucket_def)
    then show "a \<in> (\<Union>bk \<in> ran (spatialHashRef s). set bk)"
      by (blast intro: ranI)
  qed
  show "(\<Union>bk \<in> ran (spatialHashRef s). set bk) = set (birdsRef s)"
    unfolding un using mem ky by auto
  show "\<forall>a \<in> set (birdsRef s). \<exists>!k. inBucket s k a"
    using mem ky by auto
  show "\<forall>a \<in> set (birdsRef s).
           inBucket s (getCellKeyFromXY (pos_x (heap s a)) (pos_y (heap s a)) (cellSizeOf c)) a"
    using mem ky by auto
  show "\<forall>bk \<in> ran (spatialHashRef s). distinct bk \<and> bk \<noteq> []"
    using wf by (auto simp: buckets_wf_def ran_def)
qed

text \<open>
  Claim C1. After every sequence of events on the mounted component (spawns, frames of
  the motion engine with their moves and retirements, hits, timer ticks, replays), the
  union of the buckets of the spatial hash is the set of targets in the active list,
  every active target is in exactly one bucket, that bucket is the one of the cell of the
  target's position (floor division by the cell size), and no bucket is empty or holds a
  target twice.
\<close>

theorem index_matches_active_list:
  "(\<Union>bk \<in> ran (spatialHashRef (run es (initialGame c adr))). set bk) =
     set (birdsRef (run es (initialGame c adr))) \<and>
   (\<forall>a \<in> set (birdsRef (run es (initialGame c adr))).
      \<exists>!k. inBucket (run es (initialGame c adr)) k a) \<and>
   (\<forall>a \<in> set (birdsRef (run es (initialGame c adr))).
      inBucket (run es (initialGame c adr))
        (getCellKeyFromXY (pos_x (heap (run es (initialGame c adr)) a))
           (pos_y (heap (run es (initialGame c adr)) a)) (max 1 (getScaledSize c 32 * 2))) a) \<and>
   (\<forall>bk \<in> ran (spatialHashRef (run es (initialGame c adr))). distinct bk \<and> bk \<noteq> [])"
  using index_inv_buckets [OF index_inv_run [OF index_inv_initialGame, of c es adr]]
  unfolding cellSizeOf_def by blast

lemma saveDeps_unchanged:
  "roundView s' = roundView s \<Longrightarrow> hitHistory s' = hitHistory s \<Longrightarrow> saveDeps s' = saveDeps s"
  by (simp add: saveDeps_def roundView_def score_def hits_def)

lemma step_Spawn: "step (Spawn fo d) s = createBird (capture s) fo d s"
  by (simp add: step_def saveDeps_unchanged [of "createBird (capture s) fo d s" s])

lemma step_Frame: "step (Frame rnd) s = simulationStep rnd s"
  by (simp add: step_def saveDeps_unchanged [of "simulationStep rnd s" s])

lemma flyGame_eq:
  "flyGame =
     (startedGame (Some fullContainer) None)
       \<lparr>heap := (\<lambda>a. freshInstance (birdTypes ! 0) 0)
          (0 := \<lparr>bird_id = ''n2'', bird = birdTypes ! 2, pos_x = Fin 996, pos_y = Fin 252,
                 velocityX = Fin (- 1.5), velocityY = Fin 0, direction = left,
                 initialY = Fin 252, status = flying, currentFrame = 0, lastFrameTime = 1500,
                 active = True, cellKey = Some (KInt 15, KInt 3)\<rparr>),
        nextAddr := 1, birdsRef := [0], spatialHashRef := [(KInt 15, KInt 3) \<mapsto> [0]]\<rparr>"
  by (simp add: flyGame_def startedGame_eq initialGame_def fullContainer_def draws2_def
        runningClosure_def gameContainerRef_def
        createBird_def spawnGeometry_def spawnPoint_def getScaledSize_def spawnVelocity_def
        acquire_def resetFields_def spatialInsert_def Let_def getCellKeyFromXY_def hash_add_def
        bucket_add_def freshInstance_def getRandomBird_def birdTypes_def)

lemma simulationStep_flyGame:
  "simulationStep (\<lambda>a. 1 / 2) flyGame =
     flyGame\<lparr>heap := (heap flyGame)(0 := (heap flyGame 0)\<lparr>pos_x := Fin (1989 / 2)\<rparr>)\<rparr>"
  by (simp add: simulationStep_def Let_def flyGame_eq startedGame_eq initialGame_def
        gameContainerRef_def fullContainer_def getScaledSize_def simLoop.simps stepBird_def flightTarget_def
        inBounds_def moveTo_def spatialUpdateIfMoved_def getCellKeyFromXY_def birdTypes_def)

theorem index_matches_active_list_witness:
  "run [CountdownTick, CountdownTick, CountdownTick, Spawn None draws2, Frame (\<lambda>a. 1 / 2)]
      (initialGame (Some fullContainer) None) =
     flyGame\<lparr>heap := (heap flyGame)(0 := (heap flyGame 0)\<lparr>pos_x := Fin (1989 / 2)\<rparr>)\<rparr> \<and>
   birdsRef flyGame = [0] \<and>
   spatialHashRef flyGame = [(KInt 15, KInt 3) \<mapsto> [0]] \<and>
   max 1 (getScaledSize (Some fullContainer) 32 * 2) = 64 \<and>
   getCellKeyFromXY (Fin (1989 / 2)) (Fin 252) 64 = (KInt 15, KInt 3) \<and>
   inBucket
     (run [CountdownTick, CountdownTick, CountdownTick, Spawn None draws2, Frame (\<lambda>a. 1 / 2)]
        (initialGame (Some fullContainer) None))
     (KInt 15, KInt 3) 0"
proof -
  let ?es = "[CountdownTick, CountdownTick, CountdownTick, Spawn None draws2, Frame (\<lambda>a. 1 / 2)]"
  have r: "run ?es (initialGame (Some fullContainer) None) =
             flyGame\<lparr>heap := (heap flyGame)(0 := (heap flyGame 0)\<lparr>pos_x := Fin (1989 / 2)\<rparr>)\<rparr>"
  proof -
    have "run ?es (initialGame (Some fullContainer) None) =
            run [Spawn None draws2, Frame (\<lambda>a. 1 / 2)] (startedGame (Some fullContainer) None)"
      by (simp add: startedGame_def)
    also have "\<dots> = simulationStep (\<lambda>a. 1 / 2) flyGame"
      by (simp add: step_Spawn step_Frame flyGame_def capture_startedGame)
    finally show ?thesis by (simp only: simulationStep_flyGame)
  qed
  have f: "birdsRef flyGame = [0]" "spatialHashRef flyGame = [(KInt 15, KInt 3) \<mapsto> [0]]"
    "pos_y (heap flyGame 0) = Fin 252"
    by (simp_all add: flyGame_eq)
  have cs: "max 1 (getScaledSize (Some fullContainer) 32 * 2) = 64"
    by (simp add: getScaledSize_def fullContainer_def)
  have k: "getCellKeyFromXY (Fin (1989 / 2)) (Fin 252) 64 = (KInt 15, KInt 3)"
    by (simp add: getCellKeyFromXY_def)
  show ?thesis
    using index_matches_active_list [of ?es "Some fullContainer" None]
    unfolding r cs
    by (simp add: f k r)
qed

section \<open>Fall of a hit target\<close>

lemma domainFields_spatialUpdateIfMoved [simp]:
  "domainFields (heap (spatialUpdateIfMoved a c s) b) = domainFields (heap s b)"
  by (simp add: spatialUpdateIfMoved_def Let_def domainFields_def)

lemma domainFields_retire [simp]:
  "domainFields (heap (retire i a s) b) = domainFields (heap s b)"
  by (simp add: retire_def spatialRemove_def Let_def domainFields_def split: option.splits)

lemma stepBird_other:
  "b \<noteq> birdsRef s ! i \<Longrightarrow>
   domainFields (heap (snd (stepBird w h c rnd i s)) b) = domainFields (heap s b)"
  by (simp add: stepBird_def Let_def fallStep_def moveTo_def)

lemma stepBird_hit:
  "status (heap s (birdsRef s ! i)) = hit \<Longrightarrow>
   domainFields (heap (snd (stepBird w h c rnd i s)) (birdsRef s ! i)) =
     domainFields (fallen (heap s (birdsRef s ! i)))"
  by (simp add: stepBird_def Let_def fallStep_def fallen_def)

lemma stepBird_birdsRef:
  "birdsRef (snd (stepBird w h c rnd i s)) =
     (if fst (stepBird w h c rnd i s) then birdsRef s else swap_remove i (birdsRef s))"
  by (simp add: stepBird_def Let_def birdsRef_retire_swap)

lemma status_domainFields: "status (domainFields b) = status b"
  by (simp add: domainFields_def)

lemma simLoop_untouched:
  "b \<notin> set (drop i (birdsRef s)) \<Longrightarrow> distinct (birdsRef s) \<Longrightarrow>
   domainFields (heap (simLoop w h c rnd i s) b) = domainFields (heap s b)"
proof (induction w h c rnd i s rule: simLoop.induct)
  case (1 w h c rnd i s)
  show ?case
  proof (cases "i < length (birdsRef s)")
    case False
    then show ?thesis by (simp add: simLoop.simps [of w h c rnd i s])
  next
    case True
    let ?r = "stepBird w h c rnd i s"
    have dr: "set (drop i (birdsRef s)) = insert (birdsRef s ! i) (set (drop (Suc i) (birdsRef s)))"
      using True by (metis Cons_nth_drop_Suc list.simps(15))
    have ne: "b \<noteq> birdsRef s ! i" and nl: "b \<notin> set (drop (Suc i) (birdsRef s))"
      using 1(3) dr by simp_all
    have eq: "domainFields (heap (snd ?r) b) = domainFields (heap s b)"
      by (rule stepBird_other [OF ne])
    show ?thesis
    proof (cases "fst ?r")
      case t: True
      have "b \<notin> set (drop (i + 1) (birdsRef (snd ?r)))"
        using nl t by (simp add: stepBird_birdsRef)
      moreover have "distinct (birdsRef (snd ?r))" using 1(4) t by (simp add: stepBird_birdsRef)
      ultimately show ?thesis
        using 1(1) [OF True refl t] True t eq by (simp add: simLoop.simps [of w h c rnd i s])
    next
      case f: False
      note sw = swap_remove_facts [OF True 1(4)]
      have "b \<notin> set (drop i (birdsRef (snd ?r)))"
        using nl f sw(3) by (simp add: stepBird_birdsRef)
      moreover have "distinct (birdsRef (snd ?r))" using f sw(2) by (simp add: stepBird_birdsRef)
      ultimately show ?thesis
        using 1(2) [OF True refl f] True f eq by (simp add: simLoop.simps [of w h c rnd i s])
    qed
  qed
qed

lemma simLoop_hit:
  "b \<in> set (drop i (birdsRef s)) \<Longrightarrow> distinct (birdsRef s) \<Longrightarrow> status (heap s b) = hit \<Longrightarrow>
   domainFields (heap (simLoop w h c rnd i s) b) = domainFields (fallen (heap s b))"
proof (induction w h c rnd i s rule: simLoop.induct)
  case (1 w h c rnd i s)
  have True: "i < length (birdsRef s)" using 1(3) by (cases "i < length (birdsRef s)") auto
  let ?r = "stepBird w h c rnd i s"
  note sw = swap_remove_facts [OF True 1(4)]
  have dr: "set (drop i (birdsRef s)) = insert (birdsRef s ! i) (set (drop (Suc i) (birdsRef s)))"
    using True by (metis Cons_nth_drop_Suc list.simps(15))
  have notin: "birdsRef s ! i \<notin> set (drop (Suc i) (birdsRef s))"
    using 1(4) True by (metis Cons_nth_drop_Suc append_take_drop_id distinct.simps(2)
          distinct_append)
  have d': "distinct (birdsRef (snd ?r))" using 1(4) sw(2) by (simp add: stepBird_birdsRef)
  have rest: "set (drop (if fst ?r then i + 1 else i) (birdsRef (snd ?r))) =
                set (drop (Suc i) (birdsRef s))"
    using sw(3) by (simp add: stepBird_birdsRef)
  have unfold: "simLoop w h c rnd i s =
                  simLoop w h c rnd (if fst ?r then i + 1 else i) (snd ?r)"
    using True by (simp add: simLoop.simps [of w h c rnd i s] Let_def)
  show ?case
  proof (cases "b = birdsRef s ! i")
    case here: True
    have "b \<notin> set (drop (if fst ?r then i + 1 else i) (birdsRef (snd ?r)))"
      using notin here rest by simp
    then have "domainFields (heap (simLoop w h c rnd i s) b) = domainFields (heap (snd ?r) b)"
      unfolding unfold by (rule simLoop_untouched [OF _ d'])
    also have "\<dots> = domainFields (fallen (heap s b))"
      using stepBird_hit [of s i w h c rnd] 1(5) here by simp
    finally show ?thesis .
  next
    case later: False
    have eq: "domainFields (heap (snd ?r) b) = domainFields (heap s b)"
      by (rule stepBird_other [OF later])
    then have "status (heap (snd ?r) b) = status (heap s b)"
      by (metis status_domainFields)
    then have st: "status (heap (snd ?r) b) = hit" using 1(5) by simp
    have fl: "domainFields (fallen (heap (snd ?r) b)) = domainFields (fallen (heap s b))"
      using eq by (cases "heap (snd ?r) b"; cases "heap s b")
                  (simp add: domainFields_def fallen_def)
    have mem: "b \<in> set (drop (if fst ?r then i + 1 else i) (birdsRef (snd ?r)))"
      using 1(3) later dr rest by simp
    show ?thesis
    proof (cases "fst ?r")
      case t: True
      with mem have "b \<in> set (drop (i + 1) (birdsRef (snd ?r)))" by simp
      from 1(1) [OF True refl t this d' st] unfold t fl show ?thesis by simp
    next
      case f: False
      with mem have "b \<in> set (drop i (birdsRef (snd ?r)))" by simp
      from 1(2) [OF True refl f this d' st] unfold f fl show ?thesis by simp
    qed
  qed
qed

lemma domainFields_eqD:
  assumes "domainFields b' = domainFields b"
  shows "bird_id b' = bird_id b" and "bird b' = bird b" and "pos_x b' = pos_x b"
    and "pos_y b' = pos_y b" and "velocityX b' = velocityX b" and "velocityY b' = velocityY b"
    and "direction b' = direction b" and "initialY b' = initialY b" and "status b' = status b"
    and "currentFrame b' = currentFrame b" and "lastFrameTime b' = lastFrameTime b"
  using assms by (cases b'; cases b; simp add: domainFields_def)+

lemma simulationStep_hit:
  assumes "gameStarted s" and "\<not> gameOver s" and "gameContainerRef s = Some ct"
    and "distinct (birdsRef s)" and "a \<in> set (birdsRef s)" and "status (heap s a) = hit"
  shows "domainFields (heap (simulationStep rnd s) a) = domainFields (fallen (heap s a))"
  using assms simLoop_hit [of a 0 s]
  by (simp add: simulationStep_def Let_def)

text \<open>The active list of a component never holds a target twice.\<close>

lemma active_list_distinct: "distinct (birdsRef (run es (initialGame c adr)))"
  using index_inv_run [OF index_inv_initialGame, of c es adr]
  by (simp add: index_inv_def index_consistent_def)

text \<open>
  Claim C9. \<open>catchBird\<close> turns a flying target into a hit one by setting its status, its
  horizontal velocity to 0 and its vertical velocity to 2, and nothing else of it. In a
  frame of a running round, a hit target of the active list (a list without duplicates, as
  it always is) gets 0.1 added to its vertical velocity and the new vertical velocity
  added to its \<open>y\<close>; its \<open>x\<close>, horizontal velocity, species (with its points),
  direction, status, id and initial \<open>y\<close> are the same after the frame, whether the frame
  retires the target or not.
\<close>

theorem hit_target_falls_straight:
  "(find (\<lambda>b. bird_id (heap s b) = i) (birdsRef s) = Some t \<and> status (heap s t) = flying \<longrightarrow>
      heap (catchBird i d s) t =
        (heap s t)\<lparr>status := hit, velocityX := Fin 0, velocityY := Fin 2\<rparr>) \<and>
   (gameStarted s \<and> \<not> gameOver s \<and> gameContainerRef s = Some ct \<and>
    distinct (birdsRef s) \<and> a \<in> set (birdsRef s) \<and> status (heap s a) = hit \<longrightarrow>
      velocityY (heap (simulationStep rnd s) a) = jadd (velocityY (heap s a)) (Fin 0.1) \<and>
      pos_y (heap (simulationStep rnd s) a) =
        jadd (pos_y (heap s a)) (jadd (velocityY (heap s a)) (Fin 0.1)) \<and>
      pos_x (heap (simulationStep rnd s) a) = pos_x (heap s a) \<and>
      velocityX (heap (simulationStep rnd s) a) = velocityX (heap s a) \<and>
      bird (heap (simulationStep rnd s) a) = bird (heap s a) \<and>
      direction (heap (simulationStep rnd s) a) = direction (heap s a) \<and>
      status (heap (simulationStep rnd s) a) = hit \<and>
      bird_id (heap (simulationStep rnd s) a) = bird_id (heap s a) \<and>
      initialY (heap (simulationStep rnd s) a) = initialY (heap s a))"
proof (intro conjI impI)
  assume "find (\<lambda>b. bird_id (heap s b) = i) (birdsRef s) = Some t \<and> status (heap s t) = flying"
  then show "heap (catchBird i d s) t =
        (heap s t)\<lparr>status := hit, velocityX := Fin 0, velocityY := Fin 2\<rparr>"
    by (simp add: catchBird_flying)
next
  assume h: "gameStarted s \<and> \<not> gameOver s \<and> gameContainerRef s = Some ct \<and>
    distinct (birdsRef s) \<and> a \<in> set (birdsRef s) \<and> status (heap s a) = hit"
  then have "domainFields (heap (simulationStep rnd s) a) = domainFields (fallen (heap s a))"
    by (intro simulationStep_hit) blast+
  note f = domainFields_eqD [OF this]
  from h have st: "status (heap s a) = hit" by blast
  show "velocityY (heap (simulationStep rnd s) a) = jadd (velocityY (heap s a)) (Fin 0.1)"
    and "pos_y (heap (simulationStep rnd s) a) =
        jadd (pos_y (heap s a)) (jadd (velocityY (heap s a)) (Fin 0.1))"
    and "pos_x (heap (simulationStep rnd s) a) = pos_x (heap s a)"
    and "velocityX (heap (simulationStep rnd s) a) = velocityX (heap s a)"
    and "bird (heap (simulationStep rnd s) a) = bird (heap s a)"
    and "direction (heap (simulationStep rnd s) a) = direction (heap s a)"
    and "status (heap (simulationStep rnd s) a) = hit"
    and "bird_id (heap (simulationStep rnd s) a) = bird_id (heap s a)"
    and "initialY (heap (simulationStep rnd s) a) = initialY (heap s a)"
    using f st by (simp_all add: fallen_def)
qed

theorem hit_target_falls_straight_witness:
  "heap hitGame 0 =
     (heap oneBirdGame 0)\<lparr>status := hit, velocityX := Fin 0, velocityY := Fin 2\<rparr> \<and>
   pos_x (heap hitGame 0) = Fin (- 100) \<and> pos_y (heap hitGame 0) = Fin 252 \<and>
   velocityY (heap (simulationStep (\<lambda>a. 1 / 2) hitGame) 0) = Fin (21 / 10) \<and>
   pos_y (heap (simulationStep (\<lambda>a. 1 / 2) hitGame) 0) = Fin (2541 / 10) \<and>
   pos_x (heap (simulationStep (\<lambda>a. 1 / 2) hitGame) 0) = Fin (- 100) \<and>
   velocityX (heap (simulationStep (\<lambda>a. 1 / 2) hitGame) 0) = Fin 0 \<and>
   status (heap (simulationStep (\<lambda>a. 1 / 2) hitGame) 0) = hit \<and>
   name (bird (heap (simulationStep (\<lambda>a. 1 / 2) hitGame) 0)) = ''Butterfly''"
proof -
  have one: "status (heap oneBirdGame 0) = flying" by (simp add: oneBirdGame_eq)
  have hg: "hitGame =
     oneBirdGame
       \<lparr>hitHistory := hitHistory oneBirdGame @
          [\<lparr>hit_birdType = name (bird (heap oneBirdGame 0)),
            hit_points = points (bird (heap oneBirdGame 0)), hit_timestamp = c_now catch1\<rparr>],
        floatingPointsRef := floatingPointsRef oneBirdGame @
          [\<lparr>fp_id = c_id catch1, fp_points = points (bird (heap oneBirdGame 0)),
            fp_x = pos_x (heap oneBirdGame 0), fp_y = pos_y (heap oneBirdGame 0), opacity = 1\<rparr>],
        heap := (heap oneBirdGame)
          (0 := (heap oneBirdGame 0)\<lparr>status := hit, velocityX := Fin 0, velocityY := Fin 2\<rparr>)\<rparr>"
    unfolding hitGame_def by (rule catchBird_flying [OF find_oneBirdGame(1) one])
  have pre: "gameStarted hitGame" "\<not> gameOver hitGame"
    "gameContainerRef hitGame = Some fullContainer" "distinct (birdsRef hitGame)"
    "0 \<in> set (birdsRef hitGame)" "status (heap hitGame 0) = hit"
    "pos_x (heap hitGame 0) = Fin (- 100)" "pos_y (heap hitGame 0) = Fin 252"
    "velocityX (heap hitGame 0) = Fin 0" "velocityY (heap hitGame 0) = Fin 2"
    "name (bird (heap hitGame 0)) = ''Butterfly''"
    by (simp_all add: hg oneBirdGame_eq startedGame_eq initialGame_def birdTypes_def
          gameContainerRef_def)
  have h0: "heap hitGame 0 =
     (heap oneBirdGame 0)\<lparr>status := hit, velocityX := Fin 0, velocityY := Fin 2\<rparr>"
    by (simp add: hg)
  show ?thesis
    using hit_target_falls_straight
            [of oneBirdGame "''n1''" 0 catch1 fullContainer 0 "\<lambda>a. 1 / 2"]
          hit_target_falls_straight
            [of hitGame "''n1''" 0 catch1 fullContainer 0 "\<lambda>a. 1 / 2"]
          one find_oneBirdGame(1) pre h0
    by (simp add: hitGame_def [symmetric])
qed

section \<open>Countdown and hand-off of the round summary\<close>

lemma saved_handle: "saved (handle e s) = saved s"
proof (cases e)
  case (Spawn fo d)
  then show ?thesis using roundView_fields(6) [OF roundView_createBird(1)] by simp
next
  case (Frame rnd)
  then show ?thesis using roundView_fields(6) [OF roundView_simulationStep(1)] by simp
next
  case (Click x y ds)
  then show ?thesis
    using roundView_fields(6) [OF roundView_hitTest]
    by (simp add: handleGameAreaClick_def split: option.splits)
next
  case (Pinch ds)
  then show ?thesis using roundView_fields(6) [OF roundView_hitTest] by (simp add: onPinch_def)
next
  case (HandData p)
  then show ?thesis
    by (simp add: onHandData_def updateHandPosition_def Let_def split: option.splits)
next
  case (MouseMove x y)
  then show ?thesis by (simp add: handleMouseMove_def split: option.splits)
next
  case ToggleHandMode
  then show ?thesis by simp
next
  case CountdownTick
  then show ?thesis by (simp add: countdownTick_def)
next
  case SecondsTick
  then show ?thesis by (simp add: secondsTick_def)
next
  case PlayAgain
  then show ?thesis by (simp add: playAgain_def resetGame_def)
next
  case (Flock fd)
  then show ?thesis using roundView_fields(6) [OF roundView_createFlock(1)] by simp
next
  case (FlockTimer n d)
  then show ?thesis using roundView_fields(6) [OF roundView_fireFlockTimer(1)] by simp
next
  case (AddressChange a)
  then show ?thesis by simp
qed

text \<open>
  Once the round is over, only a replay or another address changes a dependency of the
  save effect.
\<close>

lemma handle_after_gameOver:
  assumes "gameOver s" and "e \<noteq> PlayAgain" and "\<not> isAddressChange e"
  shows "saveDeps (handle e s) = saveDeps s"
proof (cases e)
  case (Spawn fo d)
  then show ?thesis by (simp add: saveDeps_unchanged [OF roundView_createBird])
next
  case (Frame rnd)
  then show ?thesis by (simp add: saveDeps_unchanged [OF roundView_simulationStep])
next
  case CountdownTick
  then show ?thesis by (simp add: countdownTick_def saveDeps_def score_def hits_def)
next
  case SecondsTick
  then show ?thesis using assms by (simp add: secondsTick_def)
next
  case (Flock fd)
  then show ?thesis by (simp add: saveDeps_unchanged [OF roundView_createFlock])
next
  case (FlockTimer n d)
  then show ?thesis by (simp add: saveDeps_unchanged [OF roundView_fireFlockTimer])
qed (use assms in simp_all)

lemma saveGameDataEffect_fields [simp]:
  "saveDeps (saveGameDataEffect s) = saveDeps s"
  "gameOver (saveGameDataEffect s) = gameOver s"
  "seconds (saveGameDataEffect s) = seconds s"
  "gameStarted (saveGameDataEffect s) = gameStarted s"
  "hitHistory (saveGameDataEffect s) = hitHistory s"
  "address (saveGameDataEffect s) = address s"
  by (simp_all add: saveGameDataEffect_def saveDeps_def score_def hits_def split: option.splits)

lemma expectedSaves_cong: "saveDeps s' = saveDeps s \<Longrightarrow> expectedSaves s' = expectedSaves s"
  by (auto simp: saveDeps_def expectedSaves_def split: option.splits)

lemma seconds_handle:
  "seconds (handle e s) =
     (if e = SecondsTick \<and> gameStarted s \<and> \<not> gameOver s
      then (if seconds s \<le> 1 then 0 else seconds s - 1)
      else if e = PlayAgain \<and> gameOver s then 60 else seconds s)"
proof (cases e)
  case (Spawn fo d)
  then show ?thesis using roundView_fields(3) [OF roundView_createBird(1)] by simp
next
  case (Frame rnd)
  then show ?thesis using roundView_fields(3) [OF roundView_simulationStep(1)] by simp
next
  case (Click x y ds)
  then show ?thesis
    using roundView_fields(3) [OF roundView_hitTest]
    by (simp add: handleGameAreaClick_def split: option.splits)
next
  case (Pinch ds)
  then show ?thesis using roundView_fields(3) [OF roundView_hitTest] by (simp add: onPinch_def)
next
  case (HandData p)
  then show ?thesis
    by (simp add: onHandData_def updateHandPosition_def Let_def split: option.splits)
next
  case (MouseMove x y)
  then show ?thesis by (simp add: handleMouseMove_def split: option.splits)
next
  case ToggleHandMode
  then show ?thesis by simp
next
  case CountdownTick
  then show ?thesis by (simp add: countdownTick_def)
next
  case SecondsTick
  then show ?thesis by (simp add: secondsTick_def)
next
  case PlayAgain
  then show ?thesis by (simp add: playAgain_def resetGame_def)
next
  case (Flock fd)
  then show ?thesis using roundView_fields(3) [OF roundView_createFlock(1)] by simp
next
  case (FlockTimer n d)
  then show ?thesis using roundView_fields(3) [OF roundView_fireFlockTimer(1)] by simp
next
  case (AddressChange a)
  then show ?thesis by simp
qed

lemma gameOver_handle:
  "gameOver (handle e s) =
     (if e = SecondsTick \<and> gameStarted s \<and> \<not> gameOver s then seconds s \<le> 1
      else if e = PlayAgain then False else gameOver s)"
proof (cases e)
  case (Spawn fo d)
  then show ?thesis using roundView_fields(1) [OF roundView_createBird(1)] by simp
next
  case (Frame rnd)
  then show ?thesis using roundView_fields(1) [OF roundView_simulationStep(1)] by simp
next
  case (Click x y ds)
  then show ?thesis
    using roundView_fields(1) [OF roundView_hitTest]
    by (simp add: handleGameAreaClick_def split: option.splits)
next
  case (Pinch ds)
  then show ?thesis using roundView_fields(1) [OF roundView_hitTest] by (simp add: onPinch_def)
next
  case (HandData p)
  then show ?thesis
    by (simp add: onHandData_def updateHandPosition_def Let_def split: option.splits)
next
  case (MouseMove x y)
  then show ?thesis by (simp add: handleMouseMove_def split: option.splits)
next
  case ToggleHandMode
  then show ?thesis by simp
next
  case CountdownTick
  then show ?thesis by (simp add: countdownTick_def)
next
  case SecondsTick
  then show ?thesis by (simp add: secondsTick_def)
next
  case PlayAgain
  then show ?thesis by (simp add: playAgain_def resetGame_def)
next
  case (Flock fd)
  then show ?thesis using roundView_fields(1) [OF roundView_createFlock(1)] by simp
next
  case (FlockTimer n d)
  then show ?thesis using roundView_fields(1) [OF roundView_fireFlockTimer(1)] by simp
next
  case (AddressChange a)
  then show ?thesis by simp
qed

lemma gameStarted_handle: "e \<noteq> PlayAgain \<Longrightarrow> gameStarted s \<Longrightarrow> gameStarted (handle e s)"
proof (cases e)
  case (Spawn fo d)
  assume "gameStarted s"
  then show ?thesis using roundView_fields(2) [OF roundView_createBird(1)] Spawn by simp
next
  case (Frame rnd)
  assume "gameStarted s"
  then show ?thesis using roundView_fields(2) [OF roundView_simulationStep(1)] Frame by simp
next
  case (Click x y ds)
  assume "gameStarted s"
  then show ?thesis
    using roundView_fields(2) [OF roundView_hitTest] Click
    by (simp add: handleGameAreaClick_def split: option.splits)
next
  case (Pinch ds)
  assume "gameStarted s"
  then show ?thesis
    using roundView_fields(2) [OF roundView_hitTest] Pinch by (simp add: onPinch_def)
next
  case (HandData p)
  assume "gameStarted s"
  then show ?thesis
    using HandData
    by (simp add: onHandData_def updateHandPosition_def Let_def split: option.splits)
next
  case (MouseMove x y)
  assume "gameStarted s"
  then show ?thesis using MouseMove by (simp add: handleMouseMove_def split: option.splits)
next
  case ToggleHandMode
  assume "gameStarted s"
  then show ?thesis using ToggleHandMode by simp
next
  case CountdownTick
  assume "gameStarted s"
  then show ?thesis using CountdownTick by (simp add: countdownTick_def)
next
  case SecondsTick
  assume "gameStarted s"
  then show ?thesis using SecondsTick by (simp add: secondsTick_def)
next
  case PlayAgain
  assume "e \<noteq> PlayAgain"
  with PlayAgain show ?thesis by simp
next
  case (Flock fd)
  assume "gameStarted s"
  then show ?thesis using roundView_fields(2) [OF roundView_createFlock(1)] Flock by simp
next
  case (FlockTimer n d)
  assume "gameStarted s"
  then show ?thesis
    using roundView_fields(2) [OF roundView_fireFlockTimer(1)] FlockTimer by simp
next
  case (AddressChange a)
  assume "gameStarted s"
  then show ?thesis using AddressChange by simp
qed

lemma step_round_fields:
  "seconds (step e s) = seconds (handle e s)"
  "gameOver (step e s) = gameOver (handle e s)"
  "gameStarted (step e s) = gameStarted (handle e s)"
  "hitHistory (step e s) = hitHistory (handle e s)"
  by (simp_all add: step_def Let_def)

lemma over_at_zero_step: "over_at_zero s \<Longrightarrow> over_at_zero (step e s)"
  by (auto simp: over_at_zero_def step_round_fields seconds_handle gameOver_handle)

lemma over_at_zero_run: "over_at_zero s \<Longrightarrow> over_at_zero (run es s)"
  by (induction es arbitrary: s) (simp_all add: over_at_zero_step)

lemma ticks_Cons: "ticks (e # es) = (if e = SecondsTick then Suc (ticks es) else ticks es)"
  by (cases e) simp_all

lemma ticks_replicate: "ticks (replicate n SecondsTick) = n"
  by (induction n) simp_all

lemma noLateChange_plain: "\<forall>e \<in> set es. \<not> isAddressChange e \<Longrightarrow> noLateChange es s"
  by (induction es arbitrary: s) simp_all

text \<open>
  The countdown of a started round without a replay: running with at least one second
  left, or over at zero.
\<close>

lemma countdown_run:
  assumes "gameStarted s" and "PlayAgain \<notin> set es"
    and "(\<not> gameOver s \<and> 1 \<le> seconds s) \<or> (gameOver s \<and> seconds s = 0)"
  shows "seconds (run es s) = max 0 (seconds s - int (ticks es)) \<and>
         gameOver (run es s) = (seconds s \<le> int (ticks es))"
  using assms
proof (induction es arbitrary: s)
  case Nil
  then show ?case by auto
next
  case (Cons e es)
  from Cons.prems have e: "e \<noteq> PlayAgain" and es: "PlayAgain \<notin> set es" by auto
  have gs: "gameStarted (step e s)"
    using gameStarted_handle [OF e Cons.prems(1)] by (simp add: step_round_fields)
  have sec: "seconds (step e s) =
               (if e = SecondsTick \<and> \<not> gameOver s
                then (if seconds s \<le> 1 then 0 else seconds s - 1) else seconds s)"
    using e Cons.prems(1) by (simp add: step_round_fields seconds_handle)
  have ov: "gameOver (step e s) =
              (if e = SecondsTick \<and> \<not> gameOver s then seconds s \<le> 1 else gameOver s)"
    using e Cons.prems(1) by (simp add: step_round_fields gameOver_handle)
  have st: "(\<not> gameOver (step e s) \<and> 1 \<le> seconds (step e s)) \<or>
            (gameOver (step e s) \<and> seconds (step e s) = 0)"
    using Cons.prems(3) by (auto simp: sec ov)
  from Cons.IH [OF gs es st]
  have ih: "seconds (run es (step e s)) = max 0 (seconds (step e s) - int (ticks es))"
    "gameOver (run es (step e s)) = (seconds (step e s) \<le> int (ticks es))"
    by simp_all
  show ?case
    using Cons.prems(3) by (auto simp: ih sec ov ticks_Cons)
qed

lemma saved_saveGameDataEffect:
  assumes "over_at_zero s"
  shows "saved (saveGameDataEffect s) = saved s @ expectedSaves s"
proof (cases "address s")
  case None
  then show ?thesis by (simp add: saveGameDataEffect_def expectedSaves_def)
next
  case (Some adr)
  show ?thesis
  proof (cases "gameOver s \<and> hitHistory s \<noteq> [] \<and> adr \<noteq> []")
    case True
    with assms have "seconds s = 0" by (simp add: over_at_zero_def)
    with True Some show ?thesis
      by (simp add: saveGameDataEffect_def expectedSaves_def)
  next
    case False
    with Some show ?thesis
      by (auto simp: saveGameDataEffect_def expectedSaves_def)
  qed
qed

lemma saved_step:
  assumes sv: "saved s = base @ expectedSaves s" and z: "over_at_zero s"
    and e: "e \<noteq> PlayAgain" and late: "\<not> (gameOver s \<and> isAddressChange e)"
  shows "saved (step e s) = base @ expectedSaves (step e s)"
proof (cases "saveDeps (handle e s) = saveDeps s")
  case True
  then have "step e s = handle e s" by (simp add: step_def)
  with sv expectedSaves_cong [OF True] show ?thesis by (simp add: saved_handle)
next
  case False
  then have st: "step e s = saveGameDataEffect (handle e s)" by (simp add: step_def)
  have no: "\<not> gameOver s"
  proof
    assume go: "gameOver s"
    with late have "\<not> isAddressChange e" by simp
    from handle_after_gameOver [OF go e this] False show False by simp
  qed
  then have "expectedSaves s = []" by (cases "address s") (simp_all add: expectedSaves_def)
  with sv have s0: "saved (handle e s) = base" by (simp add: saved_handle)
  have z': "over_at_zero (handle e s)"
    using over_at_zero_step [OF z, of e] by (simp add: over_at_zero_def step_round_fields)
  have "expectedSaves (saveGameDataEffect (handle e s)) = expectedSaves (handle e s)"
    by (rule expectedSaves_cong) simp
  with saved_saveGameDataEffect [OF z'] s0 show ?thesis unfolding st by simp
qed

lemma saved_run:
  "saved s = base @ expectedSaves s \<Longrightarrow> over_at_zero s \<Longrightarrow> PlayAgain \<notin> set es \<Longrightarrow>
   noLateChange es s \<Longrightarrow> saved (run es s) = base @ expectedSaves (run es s)"
proof (induction es arbitrary: s)
  case Nil
  then show ?case by simp
next
  case (Cons e es)
  from Cons.prems have "e \<noteq> PlayAgain" "PlayAgain \<notin> set es"
    "\<not> (gameOver s \<and> isAddressChange e)" "noLateChange es (step e s)" by auto
  with Cons.prems(1,2) Cons.IH [of "step e s"] show ?case
    by (simp add: saved_step over_at_zero_step)
qed

lemma step_SecondsTick:
  assumes "gameStarted s" and "\<not> gameOver s"
  shows "step SecondsTick s =
     (if seconds s \<le> 1 then saveGameDataEffect (s\<lparr>gameOver := True, seconds := 0\<rparr>)
      else s\<lparr>seconds := seconds s - 1\<rparr>)"
  using assms
  by (simp add: step_def secondsTick_def saveDeps_def saveGameDataEffect_def score_def hits_def
        split: option.splits)

lemma run_SecondsTicks:
  "gameStarted s \<Longrightarrow> \<not> gameOver s \<Longrightarrow> int n < seconds s \<Longrightarrow>
   run (replicate n SecondsTick) s = s\<lparr>seconds := seconds s - int n\<rparr>"
proof (induction n arbitrary: s)
  case 0
  then show ?case by simp
next
  case (Suc n)
  from Suc.prems have "\<not> seconds s \<le> 1" by simp
  with Suc.prems have st: "step SecondsTick s = s\<lparr>seconds := seconds s - 1\<rparr>"
    by (simp add: step_SecondsTick)
  show ?case
    using Suc.prems Suc.IH [of "s\<lparr>seconds := seconds s - 1\<rparr>"] by (simp add: st)
qed

lemma run_append: "run (es @ es') s = run es' (run es s)"
  by (induction es arbitrary: s) simp_all

lemma run_60_SecondsTicks:
  assumes "gameStarted s" and "\<not> gameOver s" and "seconds s = 60"
  shows "run (replicate 60 SecondsTick) s =
           saveGameDataEffect (s\<lparr>gameOver := True, seconds := 0\<rparr>)"
proof -
  have "(60::nat) = Suc 59" by simp
  then have "replicate 60 SecondsTick = replicate 59 SecondsTick @ [SecondsTick]"
    by (simp only: replicate_Suc replicate_append_same)
  then have "run (replicate 60 SecondsTick) s =
               step SecondsTick (run (replicate 59 SecondsTick) s)"
    by (simp add: run_append)
  also have "run (replicate 59 SecondsTick) s = s\<lparr>seconds := seconds s - int 59\<rparr>"
    using assms by (intro run_SecondsTicks) simp_all
  finally show ?thesis using assms by (simp add: step_SecondsTick)
qed

lemma startedGame_fields:
  "gameStarted (startedGame c adr)" "\<not> gameOver (startedGame c adr)"
  "seconds (startedGame c adr) = 60" "hitHistory (startedGame c adr) = []"
  "saved (startedGame c adr) = []" "address (startedGame c adr) = adr"
  by (simp_all add: startedGame_eq initialGame_def)

lemma step_CountdownTick: "step CountdownTick s = countdownTick s"
  by (simp add: step_def countdownTick_def saveDeps_def score_def hits_def)

lemma hitHistory_ticks:
  "\<forall>e \<in> set es. e = CountdownTick \<or> e = SecondsTick \<Longrightarrow> hitHistory (run es s) = hitHistory s"
proof (induction es arbitrary: s)
  case Nil
  then show ?case by simp
next
  case (Cons e es)
  from Cons.prems have "e = CountdownTick \<or> e = SecondsTick" by simp
  then have "hitHistory (step e s) = hitHistory s"
    by (auto simp: step_round_fields countdownTick_def secondsTick_def)
  with Cons show ?case by simp
qed

text \<open>The example round with one hit, and the state it ends in.\<close>

lemma playerGame_fields:
  "gameStarted playerGame" "\<not> gameOver playerGame" "seconds playerGame = 60"
  "address playerGame = Some ''0xA1''" "saved playerGame = []"
  "hitHistory playerGame =
     [\<lparr>hit_birdType = ''Butterfly'', hit_points = 2, hit_timestamp = 2000\<rparr>]"
proof -
  let ?s4 = "createBird runningClosure None draws1
               (startedGame (Some fullContainer) (Some ''0xA1''))"
  have s4: "?s4 =
     (startedGame (Some fullContainer) (Some ''0xA1''))
       \<lparr>heap := (\<lambda>a. freshInstance (birdTypes ! 0) 0)
          (0 := \<lparr>bird_id = ''n1'', bird = birdTypes ! 1, pos_x = Fin (- 100), pos_y = Fin 252,
                 velocityX = Fin 1.5, velocityY = Fin 0, direction = right, initialY = Fin 252,
                 status = flying, currentFrame = 0, lastFrameTime = 1000, active = True,
                 cellKey = Some (KInt (- 2), KInt 3)\<rparr>),
        nextAddr := 1, birdsRef := [0], spatialHashRef := [(KInt (- 2), KInt 3) \<mapsto> [0]]\<rparr>"
    by (simp add: startedGame_eq initialGame_def fullContainer_def draws1_def
        runningClosure_def gameContainerRef_def
        createBird_def spawnGeometry_def spawnPoint_def getScaledSize_def spawnVelocity_def
        acquire_def resetFields_def spatialInsert_def Let_def getCellKeyFromXY_def hash_add_def
        bucket_add_def freshInstance_def getRandomBird_def birdTypes_def)
  show "gameStarted playerGame" "\<not> gameOver playerGame" "seconds playerGame = 60"
    "address playerGame = Some ''0xA1''" "saved playerGame = []"
    "hitHistory playerGame =
       [\<lparr>hit_birdType = ''Butterfly'', hit_points = 2, hit_timestamp = 2000\<rparr>]"
    unfolding playerGame_def s4
    by (simp_all add: step_def handleGameAreaClick_def hitTest_def queryNearbyBirds_def
          scanCell_def hitCandidates.simps catchBird_def Let_def startedGame_eq initialGame_def
          gameContainerRef_def
          fullContainer_def getScaledSize_def saveDeps_def saveGameDataEffect_def score_def
          hits_def birdTypes_def catch1_def)
qed

lemma run_hitRound:
  "run hitRound (initialGame (Some fullContainer) (Some ''0xA1'')) =
     run (replicate 60 SecondsTick) playerGame"
  unfolding hitRound_def run_append playerGame_def
  by (simp add: step_Spawn capture_startedGame startedGame_def [symmetric, unfolded run.simps])

lemma hitRound_fields:
  "gameOver (run hitRound (initialGame (Some fullContainer) (Some ''0xA1'')))"
  "seconds (run hitRound (initialGame (Some fullContainer) (Some ''0xA1''))) = 0"
  "address (run hitRound (initialGame (Some fullContainer) (Some ''0xA1''))) = Some ''0xA1''"
  "hitHistory (run hitRound (initialGame (Some fullContainer) (Some ''0xA1''))) =
     [\<lparr>hit_birdType = ''Butterfly'', hit_points = 2, hit_timestamp = 2000\<rparr>]"
  "saved (run hitRound (initialGame (Some fullContainer) (Some ''0xA1''))) =
     [\<lparr>sessionType = ''single'', hostAddress = ''0xA1'', sum_score = 2, sum_hits = 1,
       sum_hitHistory = [\<lparr>hit_birdType = ''Butterfly'', hit_points = 2, hit_timestamp = 2000\<rparr>],
       durationSec = 60\<rparr>]"
  unfolding run_hitRound run_60_SecondsTicks [OF playerGame_fields(1,2,3)]
  by (simp_all add: saveGameDataEffect_def playerGame_fields score_def hits_def)




section \<open>Spawning with a stale closure, and in a container without size\<close>

lemma step_Flock: "step (Flock fd) s = createFlock (capture s) fd s"
  by (simp add: step_def saveDeps_unchanged [of "createFlock (capture s) fd s" s])

lemma step_FlockTimer: "step (FlockTimer n d) s = fireFlockTimer n d s"
  by (simp add: step_def saveDeps_unchanged [of "fireFlockTimer n d s" s])

lemma spawnVelocity_zero: "spawnVelocity 0 0 secs r = (NaN, NaN)"
  by (simp add: spawnVelocity_def)

lemma cellKey_origin: "getCellKeyFromXY (Fin 0) (Fin 0) (max 1 c) = (KInt 0, KInt 0)"
proof -
  have "max 1 c \<noteq> 0" by simp
  then show ?thesis by (simp add: getCellKeyFromXY_def)
qed

lemma createBird_zero_size:
  assumes "\<not> cl_gameOver cl" and "cl_gameStarted cl" and "gameContainerRef s = Some ct"
    and "clientWidth ct = 0" and "clientHeight ct = 0"
  shows "heap (createBird cl fo d s)
           (if birdPoolRef s = [] then nextAddr s else last (birdPoolRef s)) =
     \<lparr>bird_id = r_id d, bird = getRandomBird (r_bird d), pos_x = Fin 0, pos_y = Fin 0,
      velocityX = NaN, velocityY = NaN, direction = left, initialY = Fin 0, status = flying,
      currentFrame = 0, lastFrameTime = d_now d, active = True,
      cellKey = Some (KInt 0, KInt 0)\<rparr>"
  by (simp add: createBird_running [OF assms(1,2,3)] Let_def acquire_fst resetFields_literal
        spawnGeometry_zero [OF assms(4,5)] spawnVelocity_zero cellKey_origin)

text \<open>
  The round in which a flock is set up in the last second, up to the replay: the new round
  is in its countdown, with nothing in the active list and the three timers of the flock
  pending.
\<close>

lemma run_staleRound:
  "run staleRound (initialGame (Some fullContainer) None) =
     (initialGame (Some fullContainer) None)
       \<lparr>flockTimers := [(lastSecondClosure, flockTarget), (lastSecondClosure, flockTarget),
                         (lastSecondClosure, flockTarget)]\<rparr>"
proof -
  let ?st = "startedGame (Some fullContainer) None"
  have a: "run (replicate 59 SecondsTick) ?st = ?st\<lparr>seconds := 1\<rparr>"
    using run_SecondsTicks [of ?st 59] by (simp add: startedGame_fields)
  have up: "[0 ..< 3] = [0, Suc 0, 2]" by (simp add: upt_rec)
  have b: "step (Flock flockDraws1) (?st\<lparr>seconds := 1\<rparr>) =
             ?st\<lparr>seconds := 1,
                  flockTimers := [(lastSecondClosure, flockTarget),
                                  (lastSecondClosure, flockTarget),
                                  (lastSecondClosure, flockTarget)]\<rparr>"
    by (simp add: step_Flock createFlock_def capture_def gameContainerRef_def Let_def
          startedGame_eq initialGame_def fullContainer_def flockDraws1_def lastSecondClosure_def
          flockTarget_def up)
  have "run staleRound (initialGame (Some fullContainer) None) =
          run [Flock flockDraws1, SecondsTick, PlayAgain] (run (replicate 59 SecondsTick) ?st)"
    unfolding staleRound_def run_append
    by (simp add: startedGame_def [symmetric, unfolded run.simps])
  also have "\<dots> = step PlayAgain (step SecondsTick (step (Flock flockDraws1) (?st\<lparr>seconds := 1\<rparr>)))"
    by (simp add: a)
  finally show ?thesis
    unfolding b
    by (simp add: step_def secondsTick_def playAgain_def resetGame_def saveDeps_def
          saveGameDataEffect_def score_def hits_def startedGame_eq initialGame_def)
qed




section \<open>Score and hit count\<close>

lemma foldl_points:
  "foldl (\<lambda>sum h. sum + hit_points h) acc hs = acc + sum_list (map hit_points hs)"
  by (induction hs arbitrary: acc) simp_all

lemma catchBird_appends: "\<exists>new. hitHistory (catchBird i d s) = hitHistory s @ new"
  by (cases "find (\<lambda>b. bird_id (heap s b) = i) (birdsRef s)")
     (simp_all add: catchBird_def Let_def)

lemma hitCandidates_appends:
  "\<exists>new. hitHistory (hitCandidates cx cy r2 ds n cands s) = hitHistory s @ new"
proof (induction cx cy r2 ds n cands s rule: hitCandidates.induct)
  case (1 cx cy r2 ds n s)
  then show ?case by simp
next
  case (2 cx cy r2 ds n a candidates s)
  let ?b = "heap s a"
  let ?in = "jlt (jadd (jmul (jsub (Fin cx) (pos_x ?b)) (jsub (Fin cx) (pos_x ?b)))
                       (jmul (jsub (Fin cy) (pos_y ?b)) (jsub (Fin cy) (pos_y ?b)))) (Fin r2)"
  show ?case
  proof (cases ?in)
    case True
    obtain n1 where n1: "hitHistory (catchBird (bird_id ?b) (ds n) s) = hitHistory s @ n1"
      using catchBird_appends by blast
    obtain n2 where "hitHistory (hitCandidates cx cy r2 ds (Suc n) candidates
                        (catchBird (bird_id ?b) (ds n) s)) =
                      hitHistory (catchBird (bird_id ?b) (ds n) s) @ n2"
      using 2(1) [OF refl refl refl True] by blast
    with n1 True show ?thesis by (simp add: Let_def)
  next
    case False
    with 2(2) [OF refl refl refl False] show ?thesis by (simp add: Let_def)
  qed
qed

lemma handle_appends:
  assumes "e \<noteq> PlayAgain"
  shows "\<exists>new. hitHistory (handle e s) = hitHistory s @ new"
proof (cases e)
  case (Click x y ds)
  then show ?thesis
    using hitCandidates_appends
    by (simp add: handleGameAreaClick_def hitTest_def Let_def split: option.splits)
next
  case (Pinch ds)
  then show ?thesis
    using hitCandidates_appends by (simp add: onPinch_def hitTest_def Let_def)
next
  case (HandData p)
  then show ?thesis
    by (simp add: onHandData_def updateHandPosition_def Let_def split: option.splits)
next
  case (MouseMove x y)
  then show ?thesis by (simp add: handleMouseMove_def split: option.splits)
next
  case CountdownTick
  then show ?thesis by (simp add: countdownTick_def)
next
  case SecondsTick
  then show ?thesis by (simp add: secondsTick_def)
qed (use assms in simp_all)

lemma step_appends:
  assumes "e \<noteq> PlayAgain"
  shows "\<exists>new. hitHistory (step e s) = hitHistory s @ new"
  using handle_appends [OF assms, of s] by (simp add: step_def Let_def)

lemma click_oneBirdGame:
  "hitHistory (step (Click (- 90) 270 (\<lambda>n. catch1)) oneBirdGame) =
     [\<lparr>hit_birdType = ''Butterfly'', hit_points = 2, hit_timestamp = 2000\<rparr>]"
  by (simp add: step_def handleGameAreaClick_def hitTest_def queryNearbyBirds_def
        scanCell_def hitCandidates.simps catchBird_def Let_def oneBirdGame_eq startedGame_eq
        initialGame_def fullContainer_def getScaledSize_def saveDeps_def gameContainerRef_def
        saveGameDataEffect_def score_def hits_def birdTypes_def catch1_def)

text \<open>
  Claim C3. In every state of the component the score is the sum of the \<open>points\<close> of the
  entries of the hit history and the hit count is the length of the history: both are
  computed from \<open>hitHistory\<close> at each render, and the state has no counter of its own
  for either. Within a round the history only grows at its end: each event other than a
  replay leaves it as it is or appends entries, and the score and the hit count grow by
  the points and the number of the appended entries.
\<close>

theorem score_hits_from_history:
  "score s = sum_list (map hit_points (hitHistory s)) \<and> hits s = length (hitHistory s) \<and>
   (e \<noteq> PlayAgain \<longrightarrow>
      (\<exists>new. hitHistory (step e s) = hitHistory s @ new \<and>
             score (step e s) = score s + sum_list (map hit_points new) \<and>
             hits (step e s) = hits s + length new))"
proof (intro conjI impI)
  show "score s = sum_list (map hit_points (hitHistory s))"
    by (simp add: score_def foldl_points)
  show "hits s = length (hitHistory s)" by (simp add: hits_def)
next
  assume "e \<noteq> PlayAgain"
  then obtain new where "hitHistory (step e s) = hitHistory s @ new"
    using step_appends by blast
  then show "\<exists>new. hitHistory (step e s) = hitHistory s @ new \<and>
             score (step e s) = score s + sum_list (map hit_points new) \<and>
             hits (step e s) = hits s + length new"
    by (simp add: score_def hits_def foldl_points)
qed

theorem score_hits_from_history_witness:
  "hitHistory oneBirdGame = [] \<and> score oneBirdGame = 0 \<and> hits oneBirdGame = 0 \<and>
   hitHistory (step (Click (- 90) 270 (\<lambda>n. catch1)) oneBirdGame) =
     [\<lparr>hit_birdType = ''Butterfly'', hit_points = 2, hit_timestamp = 2000\<rparr>] \<and>
   score (step (Click (- 90) 270 (\<lambda>n. catch1)) oneBirdGame) = 2 \<and>
   hits (step (Click (- 90) 270 (\<lambda>n. catch1)) oneBirdGame) = 1"
proof -
  have h0: "hitHistory oneBirdGame = []"
    by (simp add: oneBirdGame_eq startedGame_eq initialGame_def)
  show ?thesis
    using score_hits_from_history [of oneBirdGame "Click (- 90) 270 (\<lambda>n. catch1)"]
          score_hits_from_history
            [of "step (Click (- 90) 270 (\<lambda>n. catch1)) oneBirdGame" SecondsTick]
          h0 click_oneBirdGame
    by simp
qed

end
